theory Spec2Isabelle
  imports Main "HOL-Library.Sublist"
begin

section \<open>Strings, bytes and the process environment\<close>

text \<open>
  A Python \<open>str\<close> is modelled by the list of its code points, restricted to code points
  below 256 (one \<open>char\<close> each); a \<open>bytes\<close> object is the list of its bytes. The module
  under verification is \<open>gmail_mcp_server.py\<close>; it runs on POSIX, so \<open>os.sep\<close> is the slash
  and \<open>os.path\<close> is \<open>posixpath\<close>.
\<close>

type_synonym bytes = "char list"

definition sep :: string where
  "sep = ''/''"

text \<open>\<open>s.startswith(pre)\<close> and \<open>s.endswith(suf)\<close>.\<close>

definition startswith :: "string \<Rightarrow> string \<Rightarrow> bool" where
  "startswith s pre = prefix pre s"

definition endswith :: "string \<Rightarrow> string \<Rightarrow> bool" where
  "endswith s suf = suffix suf s"

text \<open>
  Truthiness of an optional string, as tested by \<open>if x:\<close> and \<open>x and y\<close>: \<open>None\<close> and the empty
  string are false, every other string is true.
\<close>

fun truthy :: "string option \<Rightarrow> bool" where
  "truthy None = False"
| "truthy (Some s) = (s \<noteq> [])"

text \<open>\<open>s.split(c)\<close> for a one-character separator: never empty, \<open>''''.split(c) = ['''']\<close>.\<close>

fun split_on :: "char \<Rightarrow> string \<Rightarrow> string list" where
  "split_on c [] = [[]]"
| "split_on c (x # xs) =
     (if x = c then [] # split_on c xs
      else (case split_on c xs of [] \<Rightarrow> [[x]] | w # ws \<Rightarrow> (x # w) # ws))"

text \<open>\<open>s.join(parts)\<close>.\<close>

fun str_join :: "string \<Rightarrow> string list \<Rightarrow> string" where
  "str_join s [] = []"
| "str_join s [x] = x"
| "str_join s (x # y # ys) = x @ s @ str_join s (y # ys)"

text \<open>
  The state of the world a request is processed in: the environment variables, the current
  working directory (what \<open>os.getcwd()\<close> returns), the file system and the settings of the
  interpreter and of its library that the module reads.

  A file-system entry has the size that \<open>os.path.getsize\<close> reports and the content that
  \<open>open(p, "rb").read()\<close> returns, \<open>None\<close> when opening or reading raises \<open>OSError\<close> (a
  directory, no permission).

  \<open>int_max_str_digits\<close> is \<open>sys.get_int_max_str_digits()\<close>, the limit on the number of digits
  that \<open>int(str)\<close> accepts: 4300 unless the interpreter was started otherwise, 0 for no limit.

  \<open>guess_type w name\<close> is the outcome of \<open>mimetypes.guess_type(name)\<close>: the call raises
  \<open>ValueError\<close> for a name that \<open>urllib.parse.urlparse\<close> refuses (\<open>//[x\<close>, "Invalid IPv6 URL"),
  and otherwise returns a pair whose first component is a type or \<open>None\<close>. The tables are read
  from the host's \<open>mime.types\<close> files and are therefore part of the world.

  \<open>generator_rest\<close> stands for the part of the \<open>email\<close> package's serializer that is not
  transcribed in this theory: what \<open>as_bytes\<close> gives, for the boundary token drawn, on a
  message outside the domain described with \<open>as_bytes\<close> below, \<open>None\<close> when it raises. Nothing
  is assumed of it.
\<close>

record node =
  st_size :: nat
  file_content :: "bytes option"

datatype guess = GuessRaises | Guessed "string option"

type_synonym header = "string \<times> string"

record mime_part =
  part_headers :: "header list"
  part_payload :: string

record mime_message =
  msg_headers :: "header list"
  msg_parts :: "mime_part list"

record world =
  environ :: "string \<rightharpoonup> string"
  cwd :: string
  files :: "string \<rightharpoonup> node"
  int_max_str_digits :: nat
  guess_type :: "string \<Rightarrow> guess"
  generator_rest :: "nat \<Rightarrow> mime_message \<Rightarrow> bytes option"

text \<open>\<open>os.getenv(key, default)\<close>.\<close>

definition getenv :: "world \<Rightarrow> string \<Rightarrow> string \<Rightarrow> string" where
  "getenv w key dflt = (case environ w key of None \<Rightarrow> dflt | Some v \<Rightarrow> v)"

subsection \<open>The integer parser behind \<open>int(str)\<close>\<close>

text \<open>
  \<open>int(s)\<close> in base 10: surrounding whitespace is stripped, one sign is allowed, then decimal
  digits, where single underscores may stand between digits. A string with more than 640
  digits that has more digits than the limit \<open>sys.get_int_max_str_digits()\<close>, when this limit
  is not 0, is refused; sign, underscores and whitespace do not count. Anything refused raises
  \<open>ValueError\<close>, here \<open>None\<close>.
\<close>

definition is_space :: "char \<Rightarrow> bool" where
  "is_space c = (of_char c \<in> {9, 10, 11, 12, 13, 32, 133, 160 :: nat})"

definition is_digit :: "char \<Rightarrow> bool" where
  "is_digit c = (48 \<le> (of_char c :: nat) \<and> (of_char c :: nat) \<le> 57)"

definition digit_val :: "char \<Rightarrow> int" where
  "digit_val c = int (of_char c) - 48"

definition strip :: "string \<Rightarrow> string" where
  "strip s = rev (dropWhile is_space (rev (dropWhile is_space s)))"

text \<open>
  \<open>digits acc prev_digit s\<close> reads the digits of \<open>s\<close> into the accumulator; \<open>prev_digit\<close> says
  that the previous character was a digit (an underscore is legal only between two digits).
\<close>

fun digits :: "int \<Rightarrow> bool \<Rightarrow> string \<Rightarrow> int option" where
  "digits acc prev [] = (if prev then Some acc else None)"
| "digits acc prev (c # cs) =
     (if is_digit c then digits (acc * 10 + digit_val c) True cs
      else if c = CHR ''_'' \<and> prev then digits acc False cs
      else None)"

definition count_digits :: "string \<Rightarrow> nat" where
  "count_digits s = length (filter is_digit s)"

definition py_int :: "nat \<Rightarrow> string \<Rightarrow> int option" where
  "py_int max_str_digits s =
     (case strip s of
        [] \<Rightarrow> None
      | c # cs \<Rightarrow>
          if count_digits (c # cs) > 640 \<and> max_str_digits > 0
             \<and> count_digits (c # cs) > max_str_digits then None
          else if c = CHR ''-'' then map_option uminus (digits 0 False cs)
          else if c = CHR ''+'' then digits 0 False cs
          else digits 0 False (c # cs))"

section \<open>The path functions of \<open>posixpath\<close>\<close>

text \<open>\<open>os.path.isabs(s)\<close>.\<close>

definition isabs :: "string \<Rightarrow> bool" where
  "isabs s = startswith s sep"

text \<open>\<open>os.path.join(a, b)\<close> with one component \<open>b\<close>.\<close>

definition path_join :: "string \<Rightarrow> string \<Rightarrow> string" where
  "path_join a b =
     (if startswith b sep then b
      else if a = [] \<or> endswith a sep then a @ b
      else a @ sep @ b)"

text \<open>\<open>os.path.basename(p)\<close>: what follows the last slash.\<close>

definition basename :: "string \<Rightarrow> string" where
  "basename p = last (split_on (CHR ''/'') p)"

text \<open>
  The component loop of \<open>os.path.normpath\<close>; \<open>init\<close> is the number of initial slashes kept
  (0, 1 or 2) and \<open>new_comps\<close> the components kept so far.
\<close>

fun norm_comps :: "nat \<Rightarrow> string list \<Rightarrow> string list \<Rightarrow> string list" where
  "norm_comps init new_comps [] = new_comps"
| "norm_comps init new_comps (cmp # comps) =
     (if cmp = [] \<or> cmp = ''.'' then norm_comps init new_comps comps
      else if cmp \<noteq> ''..'' \<or> (init = 0 \<and> new_comps = [])
              \<or> (new_comps \<noteq> [] \<and> last new_comps = ''..'')
        then norm_comps init (new_comps @ [cmp]) comps
      else if new_comps \<noteq> [] then norm_comps init (butlast new_comps) comps
      else norm_comps init new_comps comps)"

definition initial_slashes :: "string \<Rightarrow> nat" where
  "initial_slashes path =
     (if startswith path sep then
        (if startswith path (sep @ sep) \<and> \<not> startswith path (sep @ sep @ sep) then 2 else 1)
      else 0)"

definition normpath :: "string \<Rightarrow> string" where
  "normpath path =
     (if path = [] then ''.''
      else
        let comps = norm_comps (initial_slashes path) [] (split_on (CHR ''/'') path);
            p = concat (replicate (initial_slashes path) sep) @ str_join sep comps
        in if p = [] then ''.'' else p)"

text \<open>\<open>os.path.abspath(path)\<close>: purely lexical, no symbolic link is resolved.\<close>

definition abspath :: "world \<Rightarrow> string \<Rightarrow> string" where
  "abspath w path = normpath (if isabs path then path else path_join (cwd w) path)"

section \<open>Reading an attachment from the shared directory\<close>

text \<open>
  Every failure of the module is a Python exception. The ones raised by the module itself are
  all \<open>ValueError\<close>s told apart by their message; they are named here as the specification
  names them:
  \<^item> \<open>PathEscapeError p\<close>: "Attachment path not allowed (outside base dir): p";
  \<^item> \<open>AttachmentTooLargeError size max_mb\<close>: "Attachment too large: size bytes (max max_mb MB)";
  \<^item> \<open>ConflictingSourceError\<close>: "attachment: provide either content_base64 OR path, not both";
  \<^item> \<open>MissingFilenameError\<close>: "attachment with content_base64 requires filename";
  \<^item> \<open>MissingSourceError\<close>: "attachment requires content_base64 or path".

  The others come out of the library: \<open>AttachmentReadError\<close> is the exception of
  \<open>os.path.getsize\<close>, \<open>open\<close> or \<open>read\<close> (an \<open>OSError\<close>, or the \<open>ValueError\<close> for a path with a NUL
  character); \<open>InvalidBase64Error\<close> is what \<open>base64.b64decode\<close> raises; \<open>InvalidLimitError\<close> is
  the \<open>ValueError\<close> of \<open>int\<close> on a \<open>MAX_ATTACHMENT_MB\<close> that it does not accept; \<open>MimeGuessError\<close>
  is the \<open>ValueError\<close> of \<open>mimetypes.guess_type\<close>; \<open>SerializationError\<close> is any exception that
  \<open>msg.as_bytes()\<close> raises.
\<close>

datatype error =
    PathEscapeError string
  | AttachmentTooLargeError nat int
  | AttachmentReadError
  | InvalidLimitError
  | ConflictingSourceError
  | MissingFilenameError
  | MissingSourceError
  | InvalidBase64Error
  | MimeGuessError
  | SerializationError

text \<open>The file-system calls made, in order.\<close>

datatype io_event = Getsize string | Open string

text \<open>The containment test \<open>p == b or p.startswith(b + os.sep)\<close> on two absolute paths.\<close>

definition path_allowed :: "string \<Rightarrow> string \<Rightarrow> bool" where
  "path_allowed p b = (p = b \<or> startswith p (b @ sep))"

text \<open>
  The file-system entry that \<open>os.path.getsize(p)\<close> and \<open>open(p, "rb")\<close> find at a path: none
  for a path with a NUL character, which both calls refuse.
\<close>

definition file_at :: "world \<Rightarrow> string \<Rightarrow> node option" where
  "file_at w p = (if CHR 0x00 \<in> set p then None else files w p)"

text \<open>
  \<open>_safe_read_file(path, base_dir)\<close>. The containment test is made only for a base directory
  that is given and not empty (\<open>if base_dir:\<close>). The result comes with the file-system calls
  the run made: the limit is read, then the size is asked for, and the file is opened only
  when the size check passed.
\<close>

definition safe_read_file ::
  "world \<Rightarrow> string \<Rightarrow> string option \<Rightarrow> io_event list \<times> (error + bytes)" where
  "safe_read_file w path base_dir =
     (let p = abspath w path in
      if (case base_dir of
            None \<Rightarrow> False
          | Some bd \<Rightarrow> bd \<noteq> [] \<and> \<not> path_allowed p (abspath w bd))
      then ([], Inl (PathEscapeError p))
      else
        case py_int (int_max_str_digits w) (getenv w ''MAX_ATTACHMENT_MB'' ''20'') of
          None \<Rightarrow> ([], Inl InvalidLimitError)
        | Some max_mb \<Rightarrow>
            (case file_at w p of
               None \<Rightarrow> ([Getsize p], Inl AttachmentReadError)
             | Some f \<Rightarrow>
                 if int (st_size f) > max_mb * 1024 * 1024
                 then ([Getsize p], Inl (AttachmentTooLargeError (st_size f) max_mb))
                 else
                   (case file_content f of
                      None \<Rightarrow> ([Getsize p, Open p], Inl AttachmentReadError)
                    | Some c \<Rightarrow> ([Getsize p, Open p], Inr c))))"

text \<open>\<open>_resolve_attachment_path(path)\<close>.\<close>

definition resolve_attachment_path :: "world \<Rightarrow> string \<Rightarrow> string" where
  "resolve_attachment_path w path =
     (let base_dir = getenv w ''ATTACHMENTS_BASE_DIR'' ''/shared'' in
      if path \<noteq> [] \<and> \<not> isabs path then path_join base_dir path else path)"

section \<open>Base64, as \<open>binascii\<close> and \<open>base64\<close> implement it\<close>

text \<open>The newline and the double quote, as one-character strings.\<close>

definition NL :: string where
  "NL = [CHR 0x0A]"

definition DQ :: string where
  "DQ = [CHR 0x22]"

text \<open>The value of a character in the Base64 alphabet, and the character of a 6-bit value.\<close>

definition b64_val :: "char \<Rightarrow> nat option" where
  "b64_val c =
     (let n = (of_char c :: nat) in
      if 65 \<le> n \<and> n \<le> 90 then Some (n - 65)
      else if 97 \<le> n \<and> n \<le> 122 then Some (n - 71)
      else if 48 \<le> n \<and> n \<le> 57 then Some (n + 4)
      else if n = 43 then Some 62
      else if n = 47 then Some 63
      else None)"

definition b64_char :: "nat \<Rightarrow> char" where
  "b64_char n =
     (if n < 26 then char_of (n + 65)
      else if n < 52 then char_of (n + 71)
      else if n < 62 then char_of (n - 4)
      else if n = 62 then CHR ''+''
      else CHR ''/'')"

text \<open>\<open>binascii.b2a_base64(s, newline=False)\<close>, which is also \<open>base64.b64encode(s)\<close>.\<close>

fun b64encode :: "bytes \<Rightarrow> string" where
  "b64encode [] = []"
| "b64encode [a] =
     (let x = (of_char a :: nat) in
      [b64_char (x div 4), b64_char ((x mod 4) * 16), CHR ''='', CHR ''=''])"
| "b64encode [a, b] =
     (let x = (of_char a :: nat); y = (of_char b :: nat) in
      [b64_char (x div 4), b64_char ((x mod 4) * 16 + y div 16),
       b64_char ((y mod 16) * 4), CHR ''=''])"
| "b64encode (a # b # c # rest) =
     (let x = (of_char a :: nat); y = (of_char b :: nat); z = (of_char c :: nat) in
      [b64_char (x div 4), b64_char ((x mod 4) * 16 + y div 16),
       b64_char ((y mod 16) * 4 + z div 64), b64_char (z mod 64)] @ b64encode rest)"

text \<open>
  The decoding loop of \<open>binascii.a2b_base64(s, strict_mode=False)\<close>. \<open>quad_pos\<close> is the position
  in the current group of four, \<open>leftchar\<close> the bits left over from the previous character,
  \<open>pads\<close> the padding characters seen since the last data character. A character outside the
  alphabet is skipped; a padding that completes a group ends the decoding at once; the input
  running out inside a group is the error ("Incorrect padding", or one data character too
  many), here \<open>None\<close>.
\<close>

fun a2b_loop :: "nat \<Rightarrow> nat \<Rightarrow> nat \<Rightarrow> string \<Rightarrow> bytes option" where
  "a2b_loop quad_pos leftchar pads [] = (if quad_pos \<noteq> 0 then None else Some [])"
| "a2b_loop quad_pos leftchar pads (c # cs) =
     (if c = CHR ''='' then
        (if quad_pos \<ge> 2 \<and> quad_pos + (pads + 1) \<ge> 4 then Some []
         else a2b_loop quad_pos leftchar (if quad_pos \<ge> 2 then pads + 1 else pads) cs)
      else
        (case b64_val c of
           None \<Rightarrow> a2b_loop quad_pos leftchar pads cs
         | Some v \<Rightarrow>
             if quad_pos = 0 then a2b_loop 1 v 0 cs
             else if quad_pos = 1 then
               map_option ((#) (char_of (leftchar * 4 + v div 16))) (a2b_loop 2 (v mod 16) 0 cs)
             else if quad_pos = 2 then
               map_option ((#) (char_of (leftchar * 16 + v div 4))) (a2b_loop 3 (v mod 4) 0 cs)
             else
               map_option ((#) (char_of (leftchar * 64 + v))) (a2b_loop 0 0 0 cs)))"

definition a2b_base64 :: "string \<Rightarrow> bytes option" where
  "a2b_base64 s = a2b_loop 0 0 0 s"

definition is_ascii :: "string \<Rightarrow> bool" where
  "is_ascii s = (\<forall>c \<in> set s. (of_char c :: nat) < 128)"

text \<open>
  \<open>base64.b64decode(s)\<close> on a \<open>str\<close>, with the default \<open>validate=False\<close>: a string with a
  non-ASCII character is refused, then \<open>a2b_base64\<close> decodes.
\<close>

definition b64decode :: "string \<Rightarrow> bytes option" where
  "b64decode s = (if is_ascii s then a2b_base64 s else None)"

text \<open>\<open>base64.urlsafe_b64encode\<close> and \<open>base64.urlsafe_b64decode\<close>.\<close>

definition urlsafe_char :: "char \<Rightarrow> char" where
  "urlsafe_char c = (if c = CHR ''+'' then CHR ''-'' else if c = CHR ''/'' then CHR ''_'' else c)"

definition urlsafe_b64encode :: "bytes \<Rightarrow> string" where
  "urlsafe_b64encode s = map urlsafe_char (b64encode s)"



text \<open>
  \<open>base64.encodebytes(s)\<close>, also \<open>email.base64mime.body_encode(s)\<close>: every 57 bytes give one line
  of at most 76 characters, each line ended by a newline.
\<close>

function encodebytes :: "bytes \<Rightarrow> string" where
  "encodebytes s = (if s = [] then [] else b64encode (take 57 s) @ NL @ encodebytes (drop 57 s))"
  by pat_completeness auto
termination
  by (relation "measure length") auto

declare encodebytes.simps [simp del]

text \<open>\<open>s.encode("utf-8")\<close> for code points below 256.\<close>

definition utf8_char :: "char \<Rightarrow> bytes" where
  "utf8_char c =
     (let n = (of_char c :: nat) in
      if n < 128 then [c] else [char_of (192 + n div 64), char_of (128 + n mod 64)])"

definition utf8_encode :: "string \<Rightarrow> bytes" where
  "utf8_encode s = concat (map utf8_char s)"

section \<open>The MIME message and its serialization\<close>

text \<open>
  The message objects of the \<open>email\<close> package, as far as this module builds them, are the
  records \<open>mime_message\<close> and \<open>mime_part\<close> declared with the world: a \<open>MIMEMultipart\<close> root with
  its headers and a flat list of parts, each part with its headers and its (already
  transfer-encoded) payload.

  \<open>MIMEMultipart()\<close>, \<open>msg[name] = value\<close> and \<open>msg.attach(part)\<close>:
\<close>

definition MIMEMultipart :: mime_message where
  "MIMEMultipart =
     \<lparr>msg_headers = [(''Content-Type'', ''multipart/mixed''), (''MIME-Version'', ''1.0'')],
      msg_parts = []\<rparr>"

definition set_header :: "mime_message \<Rightarrow> string \<Rightarrow> string \<Rightarrow> mime_message" where
  "set_header msg name v = msg\<lparr>msg_headers := msg_headers msg @ [(name, v)]\<rparr>"

definition attach :: "mime_message \<Rightarrow> mime_part \<Rightarrow> mime_message" where
  "attach msg part = msg\<lparr>msg_parts := msg_parts msg @ [part]\<rparr>"

text \<open>
  \<open>MIMEText(text, subtype, "utf-8")\<close>: the charset utf-8 makes the body Base64-encoded.
\<close>

definition MIMEText :: "string \<Rightarrow> string \<Rightarrow> mime_part" where
  "MIMEText text subtype =
     \<lparr>part_headers =
        [(''Content-Type'', ''text/'' @ subtype @ ''; charset='' @ DQ @ ''utf-8'' @ DQ),
         (''MIME-Version'', ''1.0''),
         (''Content-Transfer-Encoding'', ''base64'')],
      part_payload = encodebytes (utf8_encode text)\<rparr>"

text \<open>
  The attachment part: \<open>MIMEBase(maintype, subtype)\<close>, \<open>set_payload(data)\<close>,
  \<open>encoders.encode_base64(part)\<close> and the \<open>Content-Disposition\<close> header, in this order.
\<close>

definition attachment_part :: "string \<Rightarrow> string \<Rightarrow> string \<Rightarrow> bytes \<Rightarrow> mime_part" where
  "attachment_part maintype subtype fname data =
     \<lparr>part_headers =
        [(''Content-Type'', maintype @ ''/'' @ subtype),
         (''MIME-Version'', ''1.0''),
         (''Content-Transfer-Encoding'', ''base64''),
         (''Content-Disposition'', ''attachment; filename='' @ DQ @ fname @ DQ)],
      part_payload = encodebytes data\<rparr>"

text \<open>
  \<open>msg.as_bytes()\<close> is the \<open>BytesGenerator\<close> under the policy \<open>compat32\<close>. It is transcribed
  here for the messages of the following shape (\<open>serializable\<close>):
  \<^item> every header has one of the six names that the module and the \<open>email\<close> classes it uses
    set, and a value of printable ASCII characters that fits with its name on a line of 78
    characters (\<open>header_safe\<close>); the library writes such a header as \<open>name: value\<close> on one
    line, while it folds longer values and encodes non-ASCII ones;
  \<^item> the first header of the root is \<open>Content-Type: multipart/mixed\<close>, and the root has no
    other \<open>Content-Type\<close>;
  \<^item> the first header of every part is its \<open>Content-Type\<close>, and the handler that the
    generator selects from it is not the one for delivery reports, which fails on a payload
    that is a string;
  \<^item> the payload of every part is Base64 text.

  A header value of the root with an embedded line that looks like a header
  (\<open>embedded_header\<close>) makes the library raise \<open>HeaderParseError\<close> when it writes the headers.
  On every other message the outcome is the \<open>generator_rest\<close> of the world.
\<close>

definition header_names :: "string list" where
  "header_names =
     [''Content-Type'', ''MIME-Version'', ''To'', ''Subject'', ''Content-Transfer-Encoding'',
      ''Content-Disposition'']"

definition printable :: "string \<Rightarrow> bool" where
  "printable v = (\<forall>c \<in> set v. 32 \<le> (of_char c :: nat) \<and> (of_char c :: nat) \<le> 126)"

definition header_safe :: "string \<Rightarrow> string \<Rightarrow> bool" where
  "header_safe name v =
     (name \<in> set header_names \<and> printable v \<and> length name + 2 + length v \<le> 78)"

definition to_lower :: "char \<Rightarrow> char" where
  "to_lower c =
     (if 65 \<le> (of_char c :: nat) \<and> (of_char c :: nat) \<le> 90 then char_of ((of_char c :: nat) + 32)
      else c)"

definition strip_spaces :: "string \<Rightarrow> string" where
  "strip_spaces s =
     rev (dropWhile (\<lambda>c. c = CHR '' '') (rev (dropWhile (\<lambda>c. c = CHR '' '') s)))"

text \<open>
  \<open>msg.get_content_type()\<close> on a printable \<open>Content-Type\<close> value: the value up to its first
  semicolon, stripped and in lower case, and \<open>text/plain\<close> unless this has exactly one slash.
\<close>

definition get_content_type :: "string \<Rightarrow> string" where
  "get_content_type v =
     (let ctype = map to_lower (strip_spaces (takeWhile (\<lambda>c. c \<noteq> CHR '';'') v))
      in if length (filter (\<lambda>c. c = CHR ''/'') ctype) \<noteq> 1 then ''text/plain'' else ctype)"

text \<open>
  The generator looks for a handler named after main type and subtype joined by an
  underscore, dashes replaced by underscores, and falls back to the main type alone. A part
  is handled as a delivery report when one of the two names is \<open>message_delivery_status\<close>.
\<close>

definition dash_to_underscore :: "string \<Rightarrow> string" where
  "dash_to_underscore s = map (\<lambda>c. if c = CHR ''-'' then CHR ''_'' else c) s"

definition delivery_status :: "string \<Rightarrow> bool" where
  "delivery_status v =
     (let ctype = get_content_type v;
          maintype = takeWhile (\<lambda>c. c \<noteq> CHR ''/'') ctype;
          subtype = drop 1 (dropWhile (\<lambda>c. c \<noteq> CHR ''/'') ctype)
      in dash_to_underscore (maintype @ ''_'' @ subtype) = ''message_delivery_status''
         \<or> dash_to_underscore maintype = ''message_delivery_status'')"

definition base64_text :: "string \<Rightarrow> bool" where
  "base64_text s = (\<forall>c \<in> set s. c = CHR 0x0A \<or> c = CHR ''='' \<or> b64_val c \<noteq> None)"

definition serializable_part :: "mime_part \<Rightarrow> bool" where
  "serializable_part p =
     ((\<forall>h \<in> set (part_headers p). header_safe (fst h) (snd h))
      \<and> (case part_headers p of
            [] \<Rightarrow> False
          | h # hs \<Rightarrow> fst h = ''Content-Type'' \<and> \<not> delivery_status (snd h))
      \<and> base64_text (part_payload p))"

definition root_shape :: "header list \<Rightarrow> bool" where
  "root_shape hs =
     (case hs of
        [] \<Rightarrow> False
      | h # rest \<Rightarrow>
          h = (''Content-Type'', ''multipart/mixed'')
          \<and> (\<forall>x \<in> set rest. fst x \<in> set header_names \<and> fst x \<noteq> ''Content-Type''))"


text \<open>
  A value of two short printable lines, the first not empty and not starting with a space,
  the second starting with a name without spaces and a colon: \<open>Header.encode\<close> refuses it
  ("header value appears to contain an embedded header").
\<close>

definition embedded_header :: "string \<Rightarrow> bool" where
  "embedded_header v =
     (case split_on (CHR 0x0A) v of
        [a, l] \<Rightarrow>
          a \<noteq> [] \<and> printable a \<and> hd a \<noteq> CHR '' '' \<and> length a \<le> 30
          \<and> printable l \<and> length l \<le> 40 \<and> CHR '':'' \<in> set l
          \<and> takeWhile (\<lambda>c. c \<noteq> CHR '':'') l \<noteq> []
          \<and> CHR '' '' \<notin> set (takeWhile (\<lambda>c. c \<noteq> CHR '':'') l)
      | _ \<Rightarrow> False)"

definition header_line :: "header \<Rightarrow> string" where
  "header_line h = fst h @ '': '' @ snd h @ NL"

definition headers_text :: "header list \<Rightarrow> string" where
  "headers_text hs = concat (map header_line hs) @ NL"

definition part_text :: "mime_part \<Rightarrow> string" where
  "part_text p = headers_text (part_headers p) @ part_payload p"


fun digits_of :: "nat \<Rightarrow> nat \<Rightarrow> string" where
  "digits_of 0 n = []"
| "digits_of (Suc k) n = digits_of k (n div 10) @ [char_of (48 + n mod 10)]"

fun str_of_nat :: "nat \<Rightarrow> string" where
  "str_of_nat n = (if n < 10 then [char_of (48 + n)] else str_of_nat (n div 10) @ [char_of (48 + n mod 10)])"

declare str_of_nat.simps [simp del]

definition collides :: "string list \<Rightarrow> string \<Rightarrow> bool" where
  "collides text_lines b = (''--'' @ b \<in> set text_lines \<or> ''--'' @ b @ ''--'' \<in> set text_lines)"

partial_function (option) boundary_loop :: "string list \<Rightarrow> string \<Rightarrow> string \<Rightarrow> nat \<Rightarrow> string option" where
  "boundary_loop text_lines boundary b counter =
     (if collides text_lines b
      then boundary_loop text_lines boundary (boundary @ ''.'' @ str_of_nat counter) (Suc counter)
      else Some b)"

declare boundary_loop.simps [code]

definition boundary_of :: "nat \<Rightarrow> string" where
  "boundary_of token = replicate 15 (CHR ''='') @ digits_of 19 token @ ''==''"

definition make_boundary :: "nat \<Rightarrow> string \<Rightarrow> string option" where
  "make_boundary token text =
     boundary_loop (split_on (CHR 0x0A) text) (boundary_of token) (boundary_of token) 0"

text \<open>\<open>msg.set_boundary(b)\<close> on a \<open>Content-Type\<close> without parameters.\<close>

definition set_boundary :: "string \<Rightarrow> header list \<Rightarrow> header list" where
  "set_boundary b hs =
     map (\<lambda>(name, v). if name = ''Content-Type'' then (name, v @ ''; boundary='' @ DQ @ b @ DQ) else (name, v)) hs"

text \<open>The multipart body between its delimiters, as \<open>_handle_multipart\<close> writes it.\<close>

fun multipart_body :: "string \<Rightarrow> string list \<Rightarrow> string" where
  "multipart_body b [] = ''--'' @ b @ NL @ NL @ ''--'' @ b @ ''--'' @ NL"
| "multipart_body b (t # ts) =
     ''--'' @ b @ NL @ t @ concat (map (\<lambda>p. NL @ ''--'' @ b @ NL @ p) ts)
       @ NL @ ''--'' @ b @ ''--'' @ NL"

text \<open>The text of a message under a given boundary: the headers, then the multipart body.\<close>

definition serialize_with :: "string \<Rightarrow> mime_message \<Rightarrow> bytes" where
  "serialize_with b msg =
     headers_text (set_boundary b (msg_headers msg)) @ multipart_body b (map part_text (msg_parts msg))"

definition unmodelled :: "world \<Rightarrow> nat \<Rightarrow> mime_message \<Rightarrow> error + bytes" where
  "unmodelled w token msg =
     (case generator_rest w token msg of None \<Rightarrow> Inl SerializationError | Some raw \<Rightarrow> Inr raw)"

text \<open>
  \<open>msg.as_bytes()\<close>. The parts are written first, into a buffer; the boundary is made from
  their text and set on the root; then the headers of the root are written. The outer
  \<open>option\<close> is \<open>None\<close> when the boundary loop does not end.
\<close>

definition as_bytes :: "world \<Rightarrow> nat \<Rightarrow> mime_message \<Rightarrow> (error + bytes) option" where
  "as_bytes w token msg =
     (if root_shape (msg_headers msg) \<and> (\<forall>p \<in> set (msg_parts msg). serializable_part p) then
        (case make_boundary token (str_join NL (map part_text (msg_parts msg))) of
           None \<Rightarrow> None
         | Some b \<Rightarrow>
             if \<forall>h \<in> set (set_boundary b (msg_headers msg)). header_safe (fst h) (snd h)
               then Some (Inr (serialize_with b msg))
             else if \<forall>h \<in> set (set_boundary b (msg_headers msg)).
                       header_safe (fst h) (snd h) \<or> embedded_header (snd h)
               then Some (Inl SerializationError)
             else Some (unmodelled w token msg))
      else Some (unmodelled w token msg))"

section \<open>Building the raw e-mail\<close>

text \<open>
  An attachment item of the request: the dictionary read with \<open>att.get\<close>, every field a string
  or missing. The request itself; a missing \<open>attachments\<close> is the empty list.
\<close>

record attachment =
  att_filename :: "string option"
  att_mime_type :: "string option"
  att_content_base64 :: "string option"
  att_path :: "string option"

record request =
  req_to :: string
  req_subject :: string
  req_body :: string
  req_body_format :: string
  req_attachments :: "attachment list"

text \<open>
  \<open>guessed, _ = mimetypes.guess_type(filename)\<close> followed by
  \<open>guessed or "application/octet-stream"\<close>.
\<close>

definition guess_mime :: "world \<Rightarrow> string \<Rightarrow> error + string" where
  "guess_mime w fname =
     (case guess_type w fname of
        GuessRaises \<Rightarrow> Inl MimeGuessError
      | Guessed g \<Rightarrow> Inr (if truthy g then the g else ''application/octet-stream''))"

text \<open>The MIME type of an item: the one given, and the guess \<open>if not mime_type\<close>.\<close>

definition mime_type_or_guess :: "world \<Rightarrow> attachment \<Rightarrow> string \<Rightarrow> error + string" where
  "mime_type_or_guess w att fname =
     (if truthy (att_mime_type att) then Inr (the (att_mime_type att)) else guess_mime w fname)"

text \<open>\<open>(mime_type.split("/", 1) + ["octet-stream"])[:2]\<close>.\<close>

definition split_mime :: "string \<Rightarrow> string \<times> string" where
  "split_mime mt =
     (if CHR ''/'' \<in> set mt
      then (takeWhile (\<lambda>c. c \<noteq> CHR ''/'') mt, tl (dropWhile (\<lambda>c. c \<noteq> CHR ''/'') mt))
      else (mt, ''octet-stream''))"

text \<open>
  The body of the loop over the attachments, up to the bytes: which source is taken, the file
  name, the MIME type and the data, or the exception raised. In both branches the type is
  guessed before the data are read or decoded.
\<close>

definition resolve_attachment :: "world \<Rightarrow> attachment \<Rightarrow> error + (string \<times> string \<times> bytes)" where
  "resolve_attachment w att =
     (if truthy (att_content_base64 att) \<and> truthy (att_path att) then Inl ConflictingSourceError
      else if truthy (att_path att) then
        (let p = resolve_attachment_path w (the (att_path att));
             fname = (if truthy (att_filename att) then the (att_filename att) else basename p)
         in case mime_type_or_guess w att fname of
              Inl e \<Rightarrow> Inl e
            | Inr mt \<Rightarrow>
                (case snd (safe_read_file w p (Some (getenv w ''ATTACHMENTS_BASE_DIR'' ''/shared''))) of
                   Inl e \<Rightarrow> Inl e
                 | Inr data \<Rightarrow> Inr (fname, mt, data)))
      else if truthy (att_content_base64 att) then
        (if \<not> truthy (att_filename att) then Inl MissingFilenameError
         else
           let fname = the (att_filename att)
           in case mime_type_or_guess w att fname of
                Inl e \<Rightarrow> Inl e
              | Inr mt \<Rightarrow>
                  (case b64decode (the (att_content_base64 att)) of
                     None \<Rightarrow> Inl InvalidBase64Error
                   | Some data \<Rightarrow> Inr (fname, mt, data)))
      else Inl MissingSourceError)"

text \<open>The rest of the loop body: the part is built and attached.\<close>

definition make_part :: "string \<times> string \<times> bytes \<Rightarrow> mime_part" where
  "make_part r =
     (case r of (fname, mt, data) \<Rightarrow>
        attachment_part (fst (split_mime mt)) (snd (split_mime mt)) fname data)"

fun attach_all :: "world \<Rightarrow> mime_message \<Rightarrow> attachment list \<Rightarrow> error + mime_message" where
  "attach_all w msg [] = Inr msg"
| "attach_all w msg (att # atts) =
     (case resolve_attachment w att of
        Inl e \<Rightarrow> Inl e
      | Inr r \<Rightarrow> attach_all w (attach msg (make_part r)) atts)"

text \<open>
  \<open>build_raw_email\<close>. The message object is built first (\<open>build_message\<close>), then serialized
  and encoded; \<open>token\<close> is the number the serializer draws for the boundary. The outer
  \<open>option\<close> is \<open>None\<close> when the call does not return.
\<close>

definition build_message :: "world \<Rightarrow> request \<Rightarrow> error + mime_message" where
  "build_message w req =
     (let msg0 = set_header (set_header MIMEMultipart ''To'' (req_to req)) ''Subject'' (req_subject req);
          msg1 = attach msg0
                   (MIMEText (req_body req) (if req_body_format req = ''html'' then ''html'' else ''plain''))
      in attach_all w msg1 (req_attachments req))"

definition build_raw_email :: "world \<Rightarrow> nat \<Rightarrow> request \<Rightarrow> (error + string) option" where
  "build_raw_email w token req =
     (case build_message w req of
        Inl e \<Rightarrow> Some (Inl e)
      | Inr msg \<Rightarrow>
          (case as_bytes w token msg of
             None \<Rightarrow> None
           | Some (Inl e) \<Rightarrow> Some (Inl e)
           | Some (Inr raw) \<Rightarrow> Some (Inr (urlsafe_b64encode raw))))"

section \<open>Notions the specification speaks of\<close>

text \<open>
  The specification's containment relation on canonical paths, in its own words: a path is a
  proper descendant of a directory when both hang from the same root and the components of
  the directory are a strict prefix of the components of the path.
\<close>

definition components :: "string \<Rightarrow> string list" where
  "components p = filter (\<lambda>c. c \<noteq> []) (split_on (CHR ''/'') p)"

definition root_of :: "string \<Rightarrow> string" where
  "root_of p = takeWhile (\<lambda>c. c = CHR ''/'') p"

definition proper_descendant :: "string \<Rightarrow> string \<Rightarrow> bool" where
  "proper_descendant p b = (root_of p = root_of b \<and> strict_prefix (components b) (components p))"

text \<open>Components as \<open>normpath\<close> leaves them: not empty and without a slash.\<close>

definition good_comps :: "string list \<Rightarrow> bool" where
  "good_comps cs = (\<forall>c \<in> set cs. c \<noteq> [] \<and> CHR ''/'' \<notin> set c)"

text \<open>
  A small world for the concrete cases: two files, no environment variable set, the default
  limit on the digits of an integer, a type known for \<open>a.txt\<close> only, the guess failing for
  the name \<open>//[x\<close>. No message of the examples below is left to its \<open>generator_rest\<close>.
\<close>

definition example_world :: world where
  "example_world =
     \<lparr>environ = Map.empty, cwd = ''/app'',
      files = [''/etc/passwd'' \<mapsto> \<lparr>st_size = 4, file_content = Some ''root''\<rparr>,
               ''/shared/a.txt'' \<mapsto> \<lparr>st_size = 5, file_content = Some ''hello''\<rparr>],
      int_max_str_digits = 4300,
      guess_type = (\<lambda>name. if name = ''a.txt'' then Guessed (Some ''text/plain'')
                           else if name = ''//[x'' then GuessRaises else Guessed None),
      generator_rest = (\<lambda>token msg. None)\<rparr>"

text \<open>
  An attachment item with every field that holds the empty string taken out, as if the key
  were missing.
\<close>

definition drop_empty :: "string option \<Rightarrow> string option" where
  "drop_empty x = (if x = Some [] then None else x)"

definition without_empty_fields :: "attachment \<Rightarrow> attachment" where
  "without_empty_fields att =
     \<lparr>att_filename = drop_empty (att_filename att),
      att_mime_type = drop_empty (att_mime_type att),
      att_content_base64 = drop_empty (att_content_base64 att),
      att_path = drop_empty (att_path att)\<rparr>"

text \<open>The characters of a string that belong to the Base64 alphabet (the padding does not).\<close>

definition data_chars :: "string \<Rightarrow> string" where
  "data_chars s = filter (\<lambda>c. b64_val c \<noteq> None) s"














section \<open>Properties of the path functions\<close>

lemma split_on_nonempty: "split_on c s \<noteq> []"
  by (induction s) (auto split: list.splits)

lemma split_on_append: "split_on c (a @ c # t) = split_on c a @ split_on c t"
proof (induction a)
  case Nil
  then show ?case by simp
next
  case (Cons x a)
  then show ?case using split_on_nonempty[of c a]
    by (cases "split_on c a") (auto split: list.splits)
qed

lemma split_on_no_sep: "w \<in> set (split_on c s) \<Longrightarrow> c \<notin> set w"
proof (induction s arbitrary: w)
  case Nil
  then show ?case by simp
next
  case (Cons x s)
  then show ?case
    by (cases "split_on c s") (auto split: if_splits)
qed

lemma split_on_no_sep_id: "c \<notin> set s \<Longrightarrow> split_on c s = [s]"
  by (induction s) auto

lemma split_on_join:
  "cs \<noteq> [] \<Longrightarrow> \<forall>w \<in> set cs. c \<notin> set w \<Longrightarrow> split_on c (str_join [c] cs) = cs"
proof (induction cs rule: induct_list012)
  case 1 then show ?case by simp
next
  case (2 x) then show ?case by (simp add: split_on_no_sep_id)
next
  case (3 x y ys)
  then show ?case using split_on_append[of c x "str_join [c] (y # ys)"]
    by (simp add: split_on_no_sep_id)
qed

lemma norm_comps_good:
  "good_comps new \<Longrightarrow> \<forall>c \<in> set comps. CHR ''/'' \<notin> set c \<Longrightarrow> good_comps (norm_comps n new comps)"
proof (induction n new comps rule: norm_comps.induct)
  case (1 init new_comps)
  then show ?case by simp
next
  case (2 init new_comps cmp comps)
  have b: "good_comps (butlast new_comps)" using 2(5)
    by (auto simp: good_comps_def dest: in_set_butlastD)
  have a: "cmp \<noteq> [] \<Longrightarrow> good_comps (new_comps @ [cmp])" using 2(5,6)
    by (auto simp: good_comps_def)
  show ?case using 2 a b by auto
qed


lemma concat_replicate_sep: "concat (replicate n sep) = replicate n (CHR ''/'')"
  by (induction n) (auto simp: sep_def)

lemma str_join_eq_Nil: "good_comps cs \<Longrightarrow> str_join s cs = [] \<longleftrightarrow> cs = []"
  by (cases "(s, cs)" rule: str_join.cases) (auto simp: good_comps_def)

lemma normpath_canonical:
  "\<exists>n cs. n \<le> 2 \<and> normpath s = replicate n (CHR ''/'') @ str_join ''/'' cs \<and> good_comps cs \<and> (n = 0 \<longrightarrow> cs \<noteq> [])"
proof -
  let ?n = "initial_slashes s"
  let ?cs = "norm_comps ?n [] (split_on (CHR ''/'') s)"
  have dot: "good_comps [''.'']" by (simp add: good_comps_def)
  have n2: "?n \<le> 2" by (simp add: initial_slashes_def)
  have g: "good_comps ?cs"
    by (rule norm_comps_good) (auto simp: good_comps_def dest: split_on_no_sep)
  show ?thesis
  proof (cases "s = [] \<or> (?n = 0 \<and> ?cs = [])")
    case True
    then have "normpath s = replicate 0 (CHR ''/'') @ str_join ''/'' [''.'']"
      by (auto simp: normpath_def Let_def sep_def)
    then show ?thesis using dot by blast
  next
    case False
    then have "normpath s = replicate ?n (CHR ''/'') @ str_join ''/'' ?cs"
      using str_join_eq_Nil[OF g, of "''/''"]
      by (auto simp: normpath_def Let_def concat_replicate_sep sep_def)
    then show ?thesis using n2 g False by blast
  qed
qed

lemma components_join: "good_comps cs \<Longrightarrow> components (str_join ''/'' cs) = cs"
proof (cases "cs = []")
  case True then show ?thesis by (simp add: components_def)
next
  case False
  assume g: "good_comps cs"
  then have "split_on (CHR ''/'') (str_join ''/'' cs) = cs"
    using split_on_join[OF False, of "CHR ''/''"] by (auto simp: good_comps_def)
  then show ?thesis using g by (simp add: components_def good_comps_def)
qed

lemma components_slash: "components (CHR ''/'' # s) = components s"
  by (simp add: components_def)

lemma components_canon: "good_comps cs \<Longrightarrow> components (replicate n (CHR ''/'') @ str_join ''/'' cs) = cs"
  by (induction n) (auto simp: components_join components_slash)

lemma str_join_hd: "good_comps cs \<Longrightarrow> takeWhile (\<lambda>c. c = CHR ''/'') (str_join ''/'' cs @ t) = (if cs = [] then takeWhile (\<lambda>c. c = CHR ''/'') t else [])"
  by (cases "(''/'', cs)" rule: str_join.cases) (auto simp: good_comps_def neq_Nil_conv)

lemma root_of_canon: "good_comps cs \<Longrightarrow> root_of (replicate n (CHR ''/'') @ str_join ''/'' cs) = replicate n (CHR ''/'')"
  using str_join_hd[of cs "[]"] by (simp add: root_of_def takeWhile_append)

lemma root_of_canon_app: "good_comps cs \<Longrightarrow> cs \<noteq> [] \<Longrightarrow> root_of (replicate n (CHR ''/'') @ str_join ''/'' cs @ t) = replicate n (CHR ''/'')"
  using str_join_hd[of cs t] by (simp add: root_of_def takeWhile_append)

lemma components_append: "components (a @ CHR ''/'' # t) = components a @ components t"
  by (simp add: components_def split_on_append)

lemma str_join_append: "xs \<noteq> [] \<Longrightarrow> ys \<noteq> [] \<Longrightarrow> str_join s (xs @ ys) = str_join s xs @ s @ str_join s ys"
  by (induction xs rule: induct_list012) (auto simp: neq_Nil_conv)

lemma canon_descends:
  assumes gp: "good_comps cp" and gb: "good_comps cb" and ne: "cb \<noteq> []"
    and p: "p = replicate np (CHR ''/'') @ str_join ''/'' cp"
    and b: "b = replicate nb (CHR ''/'') @ str_join ''/'' cb"
  shows "startswith p (b @ sep) \<longleftrightarrow> proper_descendant p b"
proof
  assume "startswith p (b @ sep)"
  then obtain t where t: "p = b @ CHR ''/'' # t" by (auto simp: startswith_def prefix_def sep_def)
  have r: "root_of p = root_of b" using root_of_canon_app[OF gb ne, of nb "CHR ''/'' # t"] root_of_canon[OF gb, of nb] t b by simp
  have c: "components p = components b @ components t" using t components_append by simp
  have cp: "components p = cp" using components_canon[OF gp] p by simp
  have cb: "components b = cb" using components_canon[OF gb] b by simp
  have "components p \<noteq> components b"
  proof
    assume "components p = components b"
    then have "cp = cb" using cp cb by simp
    moreover have "replicate np (CHR ''/'') = replicate nb (CHR ''/'')" using r root_of_canon[OF gp, of np] root_of_canon[OF gb, of nb] p b by simp
    ultimately have "p = b" using p b by simp
    then show False using t by simp
  qed
  then show "proper_descendant p b" using r c by (auto simp: proper_descendant_def strict_prefix_def)
next
  assume d: "proper_descendant p b"
  have cp: "components p = cp" using components_canon[OF gp] p by simp
  have cb: "components b = cb" using components_canon[OF gb] b by simp
  have n: "replicate np (CHR ''/'') = replicate nb (CHR ''/'')" using d root_of_canon[OF gp, of np] root_of_canon[OF gb, of nb] p b by (simp add: proper_descendant_def)
  from d obtain x xs where "cp = cb @ x # xs" using cp cb by (auto simp: proper_descendant_def elim: strict_prefixE')
  then have "str_join ''/'' cp = str_join ''/'' cb @ ''/'' @ str_join ''/'' (x # xs)" using str_join_append[OF ne, of "x # xs"] by simp
  then show "startswith p (b @ sep)" using p b n by (simp add: startswith_def prefix_def sep_def)
qed

lemma abspath_canonical: "\<exists>n cs. n \<le> 2 \<and> abspath w s = replicate n (CHR ''/'') @ str_join ''/'' cs \<and> good_comps cs \<and> (n = 0 \<longrightarrow> cs \<noteq> [])"
  unfolding abspath_def by (rule normpath_canonical)

lemma allowed_iff:
  assumes "abspath w bd \<noteq> ''/''" "abspath w bd \<noteq> ''//''"
  shows "path_allowed (abspath w path) (abspath w bd) \<longleftrightarrow> (abspath w path = abspath w bd \<or> proper_descendant (abspath w path) (abspath w bd))"
proof -
  obtain np cp where p: "abspath w path = replicate np (CHR ''/'') @ str_join ''/'' cp" "good_comps cp"
    using abspath_canonical by blast
  obtain nb cb where b: "nb \<le> 2" "abspath w bd = replicate nb (CHR ''/'') @ str_join ''/'' cb" "good_comps cb" "nb = 0 \<longrightarrow> cb \<noteq> []"
    using abspath_canonical by blast
  have "cb \<noteq> []"
  proof
    assume "cb = []"
    then have "nb = 1 \<or> nb = 2" using b by auto
    then show False using assms b \<open>cb = []\<close> by (auto simp: numeral_2_eq_2)
  qed
  then show ?thesis using canon_descends[OF p(2) b(3) _ p(1) b(2)] by (simp add: path_allowed_def)
qed

lemma safe_read_escape_iff:
  "snd (safe_read_file w path (Some bd)) = Inl (PathEscapeError (abspath w path))
     \<longleftrightarrow> bd \<noteq> [] \<and> \<not> path_allowed (abspath w path) (abspath w bd)"
  by (auto simp: safe_read_file_def Let_def split: option.splits)

lemma safe_read_no_base:
  "safe_read_file w path (Some []) = safe_read_file w path None"
  by (simp add: safe_read_file_def)

lemma safe_read_no_base_no_escape:
  "snd (safe_read_file w path None) \<noteq> Inl (PathEscapeError q)"
  by (auto simp: safe_read_file_def Let_def split: option.splits)

text \<open>
  Claim C1, amended: for every path and every non-empty base directory whose canonical form is
  not a bare root (one or two slashes), the read fails with PathEscapeError exactly when the
  canonical path is not the canonical base directory and not a proper descendant of it; an
  empty base directory is treated as no base directory, and without a base directory the read
  never fails with PathEscapeError; the relative path \<open>../../etc/passwd\<close> resolved against
  \<open>/shared\<close> fails with PathEscapeError. Canonical forms are those of \<open>os.path.abspath\<close>, in
  which the \<open>..\<close> segments are already collapsed.
\<close>

theorem path_escape_exactly_outside_base:
  "(bd \<noteq> [] \<and> abspath w bd \<noteq> ''/'' \<and> abspath w bd \<noteq> ''//'' \<longrightarrow>
      (snd (safe_read_file w path (Some bd)) = Inl (PathEscapeError (abspath w path))
         \<longleftrightarrow> \<not> (abspath w path = abspath w bd
                \<or> proper_descendant (abspath w path) (abspath w bd))))
   \<and> safe_read_file w path (Some []) = safe_read_file w path None
   \<and> snd (safe_read_file w path None) \<noteq> Inl (PathEscapeError q)
   \<and> (getenv w ''ATTACHMENTS_BASE_DIR'' ''/shared'' = ''/shared'' \<longrightarrow>
        snd (safe_read_file w (resolve_attachment_path w ''../../etc/passwd'')
               (Some (getenv w ''ATTACHMENTS_BASE_DIR'' ''/shared'')))
          = Inl (PathEscapeError ''/etc/passwd''))"
proof (intro conjI impI)
  assume a: "bd \<noteq> [] \<and> abspath w bd \<noteq> ''/'' \<and> abspath w bd \<noteq> ''//''"
  then show "snd (safe_read_file w path (Some bd)) = Inl (PathEscapeError (abspath w path))
         \<longleftrightarrow> \<not> (abspath w path = abspath w bd
                \<or> proper_descendant (abspath w path) (abspath w bd))"
    using allowed_iff[of w bd path] safe_read_escape_iff[of w path bd] by simp
next
  show "safe_read_file w path (Some []) = safe_read_file w path None"
    by (rule safe_read_no_base)
next
  show "snd (safe_read_file w path None) \<noteq> Inl (PathEscapeError q)"
    by (rule safe_read_no_base_no_escape)
next
  assume g: "getenv w ''ATTACHMENTS_BASE_DIR'' ''/shared'' = ''/shared''"
  have r: "resolve_attachment_path w ''../../etc/passwd'' = ''/shared/../../etc/passwd''"
    using g by (simp add: resolve_attachment_path_def isabs_def startswith_def sep_def
        path_join_def endswith_def suffix_to_prefix)
  have p: "abspath w ''/shared/../../etc/passwd'' = ''/etc/passwd''"
    by (simp add: abspath_def isabs_def startswith_def sep_def normpath_def initial_slashes_def)
  have b: "abspath w ''/shared'' = ''/shared''"
    by (simp add: abspath_def isabs_def startswith_def sep_def normpath_def initial_slashes_def)
  have "\<not> path_allowed ''/etc/passwd'' ''/shared''"
    by (simp add: path_allowed_def startswith_def sep_def)
  then show "snd (safe_read_file w (resolve_attachment_path w ''../../etc/passwd'')
               (Some (getenv w ''ATTACHMENTS_BASE_DIR'' ''/shared'')))
          = Inl (PathEscapeError ''/etc/passwd'')"
    using safe_read_escape_iff[of w "''/shared/../../etc/passwd''" "''/shared''"] g r p b by simp
qed

text \<open>Witness for C1: a traversal out of \<open>/shared\<close> is refused, a file under it is read.\<close>

theorem path_escape_exactly_outside_base_witness:
  "(''/shared'' \<noteq> [] \<and> abspath example_world ''/shared'' \<noteq> ''/''
      \<and> abspath example_world ''/shared'' \<noteq> ''//'')
   \<and> getenv example_world ''ATTACHMENTS_BASE_DIR'' ''/shared'' = ''/shared''
   \<and> \<not> (abspath example_world ''/shared/../etc/passwd'' = abspath example_world ''/shared''
          \<or> proper_descendant (abspath example_world ''/shared/../etc/passwd'')
               (abspath example_world ''/shared''))
   \<and> snd (safe_read_file example_world ''/shared/../etc/passwd'' (Some ''/shared''))
       = Inl (PathEscapeError ''/etc/passwd'')
   \<and> proper_descendant (abspath example_world ''/shared/x/../a.txt'') (abspath example_world ''/shared'')
   \<and> snd (safe_read_file example_world ''/shared/x/../a.txt'' (Some ''/shared'')) = Inr ''hello''
   \<and> snd (safe_read_file example_world (resolve_attachment_path example_world ''../../etc/passwd'')
               (Some (getenv example_world ''ATTACHMENTS_BASE_DIR'' ''/shared'')))
          = Inl (PathEscapeError ''/etc/passwd'')"
  using path_escape_exactly_outside_base[of "''/shared''" example_world "''/shared/../etc/passwd''"]
  by (simp add: example_world_def abspath_def isabs_def startswith_def sep_def path_join_def
      endswith_def suffix_to_prefix normpath_def initial_slashes_def proper_descendant_def root_of_def
      components_def safe_read_file_def resolve_attachment_path_def getenv_def path_allowed_def
      py_int_def count_digits_def file_at_def strip_def is_space_def is_digit_def digit_val_def Let_def strict_prefix_def)

text \<open>
  Claim C9 as stated, "for every base directory", fails at the empty base directory: its
  canonical form is the working directory \<open>/app\<close>, the path \<open>/appevil/f.txt\<close> extends that
  without a separator, and the read goes on to the file system instead of raising the
  path-escape error.
\<close>

theorem prefix_without_separator_counterexample:
  "abspath example_world ''/appevil/f.txt'' = abspath example_world '''' @ ''evil/f.txt''
   \<and> snd (safe_read_file example_world ''/appevil/f.txt'' (Some ''''))
       = Inl AttachmentReadError"
  by (simp add: example_world_def abspath_def isabs_def startswith_def sep_def path_join_def
      endswith_def suffix_to_prefix normpath_def initial_slashes_def safe_read_file_def getenv_def
      py_int_def count_digits_def file_at_def strip_def is_space_def is_digit_def digit_val_def Let_def)

text \<open>
  Claim C9, amended: for every non-empty base directory \<open>bd\<close> and every path whose canonical
  form extends the canonical form of \<open>bd\<close> by a non-empty string that does not start with the
  separator, the read is rejected with the path-escape error.
\<close>

theorem prefix_without_separator_rejected:
  assumes "bd \<noteq> []" and "abspath w path = abspath w bd @ s" and "s \<noteq> []" and "hd s \<noteq> CHR ''/''"
  shows "snd (safe_read_file w path (Some bd)) = Inl (PathEscapeError (abspath w path))"
proof -
  have "\<not> path_allowed (abspath w path) (abspath w bd)"
    using assms(2-4) by (cases s) (auto simp: path_allowed_def startswith_def sep_def)
  then show ?thesis using assms(1) safe_read_escape_iff[of w path bd] by simp
qed

text \<open>Witness for C9: \<open>/sharedevil/f.txt\<close> against the base directory \<open>/shared\<close>.\<close>

theorem prefix_without_separator_rejected_witness:
  "''/shared'' \<noteq> [] \<and> abspath example_world ''/sharedevil/f.txt'' = abspath example_world ''/shared'' @ ''evil/f.txt''
   \<and> ''evil/f.txt'' \<noteq> [] \<and> hd ''evil/f.txt'' \<noteq> CHR ''/''
   \<and> snd (safe_read_file example_world ''/sharedevil/f.txt'' (Some ''/shared''))
       = Inl (PathEscapeError ''/sharedevil/f.txt'')"
proof -
  have a: "abspath example_world ''/sharedevil/f.txt'' = abspath example_world ''/shared'' @ ''evil/f.txt''"
    and p: "abspath example_world ''/sharedevil/f.txt'' = ''/sharedevil/f.txt''"
    by (simp_all add: abspath_def isabs_def startswith_def sep_def normpath_def initial_slashes_def)
  show ?thesis
    using prefix_without_separator_rejected[of "''/shared''" example_world "''/sharedevil/f.txt''" "''evil/f.txt''"] a p
    by simp
qed

text \<open>
  Claim C6 as stated, "every non-absolute path is returned joined under the base directory",
  fails at the empty path: it is not absolute, its join under \<open>/shared\<close> is \<open>/shared/\<close>, and
  \<open>_resolve_attachment_path\<close> returns it unchanged.
\<close>

theorem resolve_empty_path_counterexample:
  "\<not> isabs '''' \<and> resolve_attachment_path example_world '''' = ''''
   \<and> path_join (getenv example_world ''ATTACHMENTS_BASE_DIR'' ''/shared'') '''' = ''/shared/''"
  by (simp add: isabs_def startswith_def sep_def resolve_attachment_path_def path_join_def
      getenv_def example_world_def endswith_def suffix_to_prefix)

text \<open>
  Claim C6, amended: an absolute path and the empty path are returned unchanged; every other
  path is returned joined under the base directory, which is \<open>ATTACHMENTS_BASE_DIR\<close> when set
  and \<open>/shared\<close> otherwise. The result does not depend on the file system or the working
  directory: nothing is validated here.
\<close>

theorem resolve_attachment_path_cases:
  "resolve_attachment_path w p =
     (if isabs p \<or> p = [] then p
      else path_join (case environ w ''ATTACHMENTS_BASE_DIR'' of None \<Rightarrow> ''/shared'' | Some b \<Rightarrow> b) p)
   \<and> resolve_attachment_path (w\<lparr>files := fs, cwd := d\<rparr>) p = resolve_attachment_path w p"
  by (auto simp: resolve_attachment_path_def getenv_def Let_def)

text \<open>Instances for C6: an absolute path, a relative one, an overridden base directory.\<close>

theorem resolve_attachment_path_cases_witness:
  "resolve_attachment_path example_world ''/x/y'' = ''/x/y''
   \<and> resolve_attachment_path example_world ''out/f.pptx'' = ''/shared/out/f.pptx''
   \<and> resolve_attachment_path (example_world\<lparr>environ := [''ATTACHMENTS_BASE_DIR'' \<mapsto> ''/data/'']\<rparr>) ''f'' = ''/data/f''"
  using resolve_attachment_path_cases[of example_world "''out/f.pptx''"]
  by (simp add: isabs_def startswith_def sep_def resolve_attachment_path_def path_join_def
      getenv_def example_world_def endswith_def suffix_to_prefix)


text \<open>
  Claim C1 as stated, "for every attachment path and base directory the read fails with
  PathEscapeError exactly when the canonical path is neither the canonical base directory nor
  a proper descendant of it", fails in two places. With \<open>ATTACHMENTS_BASE_DIR\<close> set to the
  empty string the guard \<open>if base_dir:\<close> skips the check, and \<open>/etc/passwd\<close> is read although
  it lies outside the canonical base \<open>/app\<close>. With the base directory \<open>/\<close> the path
  \<open>/etc/passwd\<close>, a proper descendant of the root, is rejected, since the prefix tested is two
  slashes.
\<close>

theorem path_escape_counterexample:
  "abspath (example_world\<lparr>environ := [''ATTACHMENTS_BASE_DIR'' \<mapsto> '''']\<rparr>) ''/etc/passwd''
      \<noteq> abspath (example_world\<lparr>environ := [''ATTACHMENTS_BASE_DIR'' \<mapsto> '''']\<rparr>) ''''
   \<and> \<not> proper_descendant
         (abspath (example_world\<lparr>environ := [''ATTACHMENTS_BASE_DIR'' \<mapsto> '''']\<rparr>) ''/etc/passwd'')
         (abspath (example_world\<lparr>environ := [''ATTACHMENTS_BASE_DIR'' \<mapsto> '''']\<rparr>) '''')
   \<and> snd (safe_read_file (example_world\<lparr>environ := [''ATTACHMENTS_BASE_DIR'' \<mapsto> '''']\<rparr>)
              (resolve_attachment_path
                 (example_world\<lparr>environ := [''ATTACHMENTS_BASE_DIR'' \<mapsto> '''']\<rparr>) ''/etc/passwd'')
              (Some (getenv (example_world\<lparr>environ := [''ATTACHMENTS_BASE_DIR'' \<mapsto> '''']\<rparr>)
                       ''ATTACHMENTS_BASE_DIR'' ''/shared'')))
       = Inr ''root''
   \<and> proper_descendant (abspath example_world ''/etc/passwd'') (abspath example_world ''/'')
   \<and> snd (safe_read_file example_world ''/etc/passwd'' (Some ''/''))
       = Inl (PathEscapeError ''/etc/passwd'')"
  by (simp add: example_world_def abspath_def isabs_def startswith_def sep_def path_join_def
      endswith_def normpath_def initial_slashes_def proper_descendant_def root_of_def
      components_def safe_read_file_def resolve_attachment_path_def getenv_def path_allowed_def
      py_int_def count_digits_def file_at_def strip_def is_space_def is_digit_def digit_val_def Let_def strict_prefix_def)


text \<open>
  Claim C2 as stated, "for every file read, the read fails with AttachmentTooLargeError exactly
  when the size is above the limit, and a file within the limit is returned", fails when
  \<open>MAX_ATTACHMENT_MB\<close> holds a string that \<open>int\<close> does not accept, such as \<open>1.5\<close> or the empty
  string: the five bytes of \<open>/shared/a.txt\<close>, which are returned when the variable is not set,
  are then not returned under any limit; the read fails with the \<open>ValueError\<close> of \<open>int\<close>, before
  the file system is touched. It also fails for a file outside the base directory: with the
  limit 0 the four bytes of \<open>/etc/passwd\<close> are above the limit, and the read fails with
  PathEscapeError, the containment check coming first.
\<close>

theorem invalid_limit_counterexample:
  "safe_read_file (example_world\<lparr>environ := [''MAX_ATTACHMENT_MB'' \<mapsto> ''1.5'']\<rparr>)
      ''/shared/a.txt'' (Some ''/shared'') = ([], Inl InvalidLimitError)
   \<and> safe_read_file (example_world\<lparr>environ := [''MAX_ATTACHMENT_MB'' \<mapsto> '''']\<rparr>)
      ''/shared/a.txt'' (Some ''/shared'') = ([], Inl InvalidLimitError)
   \<and> safe_read_file example_world ''/shared/a.txt'' (Some ''/shared'')
       = ([Getsize ''/shared/a.txt'', Open ''/shared/a.txt''], Inr ''hello'')
   \<and> safe_read_file (example_world\<lparr>environ := [''MAX_ATTACHMENT_MB'' \<mapsto> ''0'']\<rparr>)
      ''/etc/passwd'' (Some ''/shared'') = ([], Inl (PathEscapeError ''/etc/passwd''))
   \<and> safe_read_file (example_world\<lparr>environ := [''MAX_ATTACHMENT_MB'' \<mapsto> ''0'']\<rparr>)
      ''/etc/passwd'' None = ([Getsize ''/etc/passwd''], Inl (AttachmentTooLargeError 4 0))"
  by (simp add: example_world_def abspath_def isabs_def startswith_def sep_def
      normpath_def initial_slashes_def safe_read_file_def getenv_def path_allowed_def
      py_int_def count_digits_def file_at_def strip_def is_space_def is_digit_def digit_val_def Let_def)

text \<open>
  Claim C2, amended: take a read that has passed the containment check. When
  \<open>MAX_ATTACHMENT_MB\<close> is not set, the limit is 20. When \<open>int\<close> refuses the value of the
  variable, the read fails with the error of \<open>int\<close> and no file-system call is made. When
  \<open>int\<close> accepts it as the integer \<open>max_mb\<close>: a file that does not exist is the read error of
  the call asking for the size; for a file that exists, the read fails with
  AttachmentTooLargeError exactly when the size of the file is strictly above
  \<open>max_mb * 1024 * 1024\<close>. Above the limit the file is never opened: the only file-system call
  made is the one asking for the size. At or below the limit (so also at exactly the limit)
  the file is opened after the size was asked for, and its whole content is returned. One byte
  over the limit is a failure.
\<close>

theorem size_limit_checked_before_read:
  assumes "case base_dir of None \<Rightarrow> True
           | Some bd \<Rightarrow> bd = [] \<or> path_allowed (abspath w path) (abspath w bd)"
  shows "(environ w ''MAX_ATTACHMENT_MB'' = None \<longrightarrow>
            py_int (int_max_str_digits w) (getenv w ''MAX_ATTACHMENT_MB'' ''20'') = Some 20)
       \<and> (py_int (int_max_str_digits w) (getenv w ''MAX_ATTACHMENT_MB'' ''20'') = None \<longrightarrow>
            safe_read_file w path base_dir = ([], Inl InvalidLimitError))
       \<and> (\<forall>max_mb.
             py_int (int_max_str_digits w) (getenv w ''MAX_ATTACHMENT_MB'' ''20'') = Some max_mb
             \<and> file_at w (abspath w path) = None \<longrightarrow>
               safe_read_file w path base_dir = ([Getsize (abspath w path)], Inl AttachmentReadError))
       \<and> (\<forall>max_mb f.
             py_int (int_max_str_digits w) (getenv w ''MAX_ATTACHMENT_MB'' ''20'') = Some max_mb
             \<and> file_at w (abspath w path) = Some f \<longrightarrow>
               (snd (safe_read_file w path base_dir) = Inl (AttachmentTooLargeError (st_size f) max_mb)
                  \<longleftrightarrow> int (st_size f) > max_mb * 1024 * 1024)
             \<and> safe_read_file w path base_dir =
                 (if int (st_size f) > max_mb * 1024 * 1024
                  then ([Getsize (abspath w path)], Inl (AttachmentTooLargeError (st_size f) max_mb))
                  else ([Getsize (abspath w path), Open (abspath w path)],
                        case file_content f of None \<Rightarrow> Inl AttachmentReadError | Some c \<Rightarrow> Inr c))
             \<and> (int (st_size f) = max_mb * 1024 * 1024 + 1 \<longrightarrow>
                  snd (safe_read_file w path base_dir)
                    = Inl (AttachmentTooLargeError (st_size f) max_mb)))"
proof -
  let ?L = "py_int (int_max_str_digits w) (getenv w ''MAX_ATTACHMENT_MB'' ''20'')"
  have d: "environ w ''MAX_ATTACHMENT_MB'' = None \<longrightarrow> ?L = Some 20"
    by (simp add: getenv_def py_int_def count_digits_def strip_def is_space_def is_digit_def
        digit_val_def)
  have n: "?L = None \<longrightarrow> safe_read_file w path base_dir = ([], Inl InvalidLimitError)"
    using assms by (auto simp: safe_read_file_def Let_def split: option.splits)
  have m: "\<forall>max_mb. ?L = Some max_mb \<and> file_at w (abspath w path) = None \<longrightarrow>
               safe_read_file w path base_dir = ([Getsize (abspath w path)], Inl AttachmentReadError)"
    using assms by (auto simp: safe_read_file_def Let_def split: option.splits)
  have e: "safe_read_file w path base_dir =
           (if int (st_size f) > max_mb * 1024 * 1024
            then ([Getsize (abspath w path)], Inl (AttachmentTooLargeError (st_size f) max_mb))
            else ([Getsize (abspath w path), Open (abspath w path)],
                  case file_content f of None \<Rightarrow> Inl AttachmentReadError | Some c \<Rightarrow> Inr c))"
    if "?L = Some max_mb" "file_at w (abspath w path) = Some f" for max_mb f
    using assms that by (auto simp: safe_read_file_def Let_def split: option.splits)
  have f: "\<forall>max_mb f. ?L = Some max_mb \<and> file_at w (abspath w path) = Some f \<longrightarrow>
               (snd (safe_read_file w path base_dir) = Inl (AttachmentTooLargeError (st_size f) max_mb)
                  \<longleftrightarrow> int (st_size f) > max_mb * 1024 * 1024)
             \<and> safe_read_file w path base_dir =
                 (if int (st_size f) > max_mb * 1024 * 1024
                  then ([Getsize (abspath w path)], Inl (AttachmentTooLargeError (st_size f) max_mb))
                  else ([Getsize (abspath w path), Open (abspath w path)],
                        case file_content f of None \<Rightarrow> Inl AttachmentReadError | Some c \<Rightarrow> Inr c))
             \<and> (int (st_size f) = max_mb * 1024 * 1024 + 1 \<longrightarrow>
                  snd (safe_read_file w path base_dir)
                    = Inl (AttachmentTooLargeError (st_size f) max_mb))"
  proof (intro allI impI)
    fix max_mb f
    assume a: "?L = Some max_mb \<and> file_at w (abspath w path) = Some f"
    note r = e[of max_mb f, OF conjunct1[OF a] conjunct2[OF a]]
    show "(snd (safe_read_file w path base_dir) = Inl (AttachmentTooLargeError (st_size f) max_mb)
                  \<longleftrightarrow> int (st_size f) > max_mb * 1024 * 1024)
             \<and> safe_read_file w path base_dir =
                 (if int (st_size f) > max_mb * 1024 * 1024
                  then ([Getsize (abspath w path)], Inl (AttachmentTooLargeError (st_size f) max_mb))
                  else ([Getsize (abspath w path), Open (abspath w path)],
                        case file_content f of None \<Rightarrow> Inl AttachmentReadError | Some c \<Rightarrow> Inr c))
             \<and> (int (st_size f) = max_mb * 1024 * 1024 + 1 \<longrightarrow>
                  snd (safe_read_file w path base_dir)
                    = Inl (AttachmentTooLargeError (st_size f) max_mb))"
      unfolding r by (auto split: option.splits)
  qed
  show ?thesis using d n m f by blast
qed

text \<open>
  Witness for C2. With the limit set to one mebibyte, a file of exactly 1048576 bytes is read
  and returned, and a file of 1048577 bytes is refused without being opened; a missing file
  is the read error; without the variable the limit is 20; with the variable set to \<open>1.5\<close>
  the read fails with the error of \<open>int\<close>.
\<close>

theorem size_limit_checked_before_read_witness:
  "safe_read_file
     (example_world\<lparr>environ := [''MAX_ATTACHMENT_MB'' \<mapsto> ''1''],
        files := [''/shared/big.bin'' \<mapsto> \<lparr>st_size = 1048576, file_content = Some ''payload''\<rparr>]\<rparr>)
     ''/shared/big.bin'' (Some ''/shared'')
     = ([Getsize ''/shared/big.bin'', Open ''/shared/big.bin''], Inr ''payload'')
   \<and> safe_read_file
     (example_world\<lparr>environ := [''MAX_ATTACHMENT_MB'' \<mapsto> ''1''],
        files := [''/shared/big.bin'' \<mapsto> \<lparr>st_size = 1048577, file_content = Some ''payload''\<rparr>]\<rparr>)
     ''/shared/big.bin'' (Some ''/shared'')
     = ([Getsize ''/shared/big.bin''], Inl (AttachmentTooLargeError 1048577 1))
   \<and> safe_read_file example_world ''/shared/none.bin'' (Some ''/shared'')
     = ([Getsize ''/shared/none.bin''], Inl AttachmentReadError)
   \<and> py_int (int_max_str_digits example_world) (getenv example_world ''MAX_ATTACHMENT_MB'' ''20'')
     = Some 20
   \<and> safe_read_file (example_world\<lparr>environ := [''MAX_ATTACHMENT_MB'' \<mapsto> ''1.5'']\<rparr>)
        ''/shared/a.txt'' (Some ''/shared'') = ([], Inl InvalidLimitError)"
proof -
  let ?w = "\<lambda>n. example_world\<lparr>environ := [''MAX_ATTACHMENT_MB'' \<mapsto> ''1''],
        files := [''/shared/big.bin'' \<mapsto> \<lparr>st_size = n, file_content = Some ''payload''\<rparr>]\<rparr>"
  let ?v = "example_world\<lparr>environ := [''MAX_ATTACHMENT_MB'' \<mapsto> ''1.5'']\<rparr>"
  have a: "abspath u ''/shared/big.bin'' = ''/shared/big.bin''"
    "abspath u ''/shared/none.bin'' = ''/shared/none.bin''"
    "abspath u ''/shared/a.txt'' = ''/shared/a.txt''"
    "abspath u ''/shared'' = ''/shared''" for u
    by (simp_all add: abspath_def isabs_def startswith_def sep_def normpath_def initial_slashes_def)
  have hb: "case Some ''/shared'' of None \<Rightarrow> True
           | Some bd \<Rightarrow> bd = [] \<or> path_allowed (abspath u ''/shared/big.bin'') (abspath u bd)"
    and hn: "case Some ''/shared'' of None \<Rightarrow> True
           | Some bd \<Rightarrow> bd = [] \<or> path_allowed (abspath u ''/shared/none.bin'') (abspath u bd)"
    and ha: "case Some ''/shared'' of None \<Rightarrow> True
           | Some bd \<Rightarrow> bd = [] \<or> path_allowed (abspath u ''/shared/a.txt'') (abspath u bd)" for u
    by (simp_all add: a path_allowed_def startswith_def sep_def)
  have l1: "py_int (int_max_str_digits (?w n)) (getenv (?w n) ''MAX_ATTACHMENT_MB'' ''20'') = Some 1" for n
    by (simp add: example_world_def getenv_def py_int_def count_digits_def strip_def is_space_def
        is_digit_def digit_val_def)
  have lv: "py_int (int_max_str_digits ?v) (getenv ?v ''MAX_ATTACHMENT_MB'' ''20'') = None"
    by (simp add: example_world_def getenv_def py_int_def count_digits_def strip_def is_space_def
        is_digit_def digit_val_def)
  have e0: "environ example_world ''MAX_ATTACHMENT_MB'' = None"
    by (simp add: example_world_def)
  have f1: "file_at (?w n) (abspath (?w n) ''/shared/big.bin'')
      = Some \<lparr>st_size = n, file_content = Some ''payload''\<rparr>" for n
    by (simp add: a file_at_def)
  have f0: "file_at example_world (abspath example_world ''/shared/none.bin'') = None"
    by (simp add: a file_at_def example_world_def)
  note T1 = size_limit_checked_before_read[OF hb]
  note T0 = size_limit_checked_before_read[OF hn]
  note Tv = size_limit_checked_before_read[OF ha]
  have 1: "safe_read_file (?w 1048576) ''/shared/big.bin'' (Some ''/shared'')
      = ([Getsize ''/shared/big.bin'', Open ''/shared/big.bin''], Inr ''payload'')"
    using T1[of "?w 1048576"] l1[of 1048576] f1[of 1048576] by (simp add: a)
  have 2: "safe_read_file (?w 1048577) ''/shared/big.bin'' (Some ''/shared'')
      = ([Getsize ''/shared/big.bin''], Inl (AttachmentTooLargeError 1048577 1))"
    using T1[of "?w 1048577"] l1[of 1048577] f1[of 1048577] by (simp add: a)
  have 4: "py_int (int_max_str_digits example_world) (getenv example_world ''MAX_ATTACHMENT_MB'' ''20'')
     = Some 20"
    using T0[of example_world] e0 by blast
  have 3: "safe_read_file example_world ''/shared/none.bin'' (Some ''/shared'')
     = ([Getsize ''/shared/none.bin''], Inl AttachmentReadError)"
    using T0[of example_world] 4 f0 by (simp add: a)
  have 5: "safe_read_file ?v ''/shared/a.txt'' (Some ''/shared'') = ([], Inl InvalidLimitError)"
    using Tv[of ?v] lv by blast
  show ?thesis using 1 2 3 4 5 by blast
qed

text \<open>
  Claim C3: the decision policy of the loop body, in its order. "Present" is what the code
  tests, the truth value of the field: set and not the empty string. Both sources present give
  ConflictingSourceError whatever the rest of the item and of the world; only the path present
  takes the path branch (the type is the one given or the one guessed from the file name, an
  error of the guess being the result, and then the resolved path is read through the
  sandbox); only
  \<open>content_base64\<close> present without a file name gives MissingFilenameError; no source present
  gives MissingSourceError.
\<close>

theorem resolution_decision_order:
  "(truthy (att_content_base64 att) \<and> truthy (att_path att) \<longrightarrow>
      resolve_attachment w att = Inl ConflictingSourceError)
   \<and> (\<not> truthy (att_content_base64 att) \<and> truthy (att_path att) \<longrightarrow>
      resolve_attachment w att =
        (let p = resolve_attachment_path w (the (att_path att));
             fname = (if truthy (att_filename att) then the (att_filename att) else basename p)
         in case mime_type_or_guess w att fname of
              Inl e \<Rightarrow> Inl e
            | Inr mt \<Rightarrow>
                (case snd (safe_read_file w p (Some (getenv w ''ATTACHMENTS_BASE_DIR'' ''/shared''))) of
                   Inl e \<Rightarrow> Inl e
                 | Inr data \<Rightarrow> Inr (fname, mt, data))))
   \<and> (truthy (att_content_base64 att) \<and> \<not> truthy (att_path att) \<and> \<not> truthy (att_filename att) \<longrightarrow>
      resolve_attachment w att = Inl MissingFilenameError)
   \<and> (\<not> truthy (att_content_base64 att) \<and> \<not> truthy (att_path att) \<longrightarrow>
      resolve_attachment w att = Inl MissingSourceError)"
  by (simp add: resolve_attachment_def Let_def)

text \<open>Witness for C3: one attachment item for each of the four cases.\<close>

theorem resolution_decision_order_witness:
  "resolve_attachment example_world
     \<lparr>att_filename = None, att_mime_type = None, att_content_base64 = Some ''aGVsbG8='',
      att_path = Some ''a.txt''\<rparr> = Inl ConflictingSourceError
   \<and> resolve_attachment example_world
     \<lparr>att_filename = None, att_mime_type = None, att_content_base64 = None,
      att_path = Some ''a.txt''\<rparr> = Inr (''a.txt'', ''text/plain'', ''hello'')
   \<and> resolve_attachment example_world
     \<lparr>att_filename = None, att_mime_type = None, att_content_base64 = Some ''aGVsbG8='',
      att_path = None\<rparr> = Inl MissingFilenameError
   \<and> resolve_attachment example_world
     \<lparr>att_filename = Some ''a.txt'', att_mime_type = None, att_content_base64 = None,
      att_path = None\<rparr> = Inl MissingSourceError"
  using resolution_decision_order[of "\<lparr>att_filename = None, att_mime_type = None,
      att_content_base64 = Some ''aGVsbG8='', att_path = Some ''a.txt''\<rparr>" example_world]
    resolution_decision_order[of "\<lparr>att_filename = None, att_mime_type = None,
      att_content_base64 = None, att_path = Some ''a.txt''\<rparr>" example_world]
    resolution_decision_order[of "\<lparr>att_filename = None, att_mime_type = None,
      att_content_base64 = Some ''aGVsbG8='', att_path = None\<rparr>" example_world]
    resolution_decision_order[of "\<lparr>att_filename = Some ''a.txt'', att_mime_type = None,
      att_content_base64 = None, att_path = None\<rparr>" example_world]
  by (simp add: example_world_def abspath_def isabs_def startswith_def sep_def path_join_def
      endswith_def suffix_to_prefix normpath_def initial_slashes_def basename_def guess_mime_def mime_type_or_guess_def
      safe_read_file_def resolve_attachment_path_def getenv_def path_allowed_def
      py_int_def count_digits_def file_at_def strip_def is_space_def is_digit_def digit_val_def Let_def)

text \<open>
  Claim C4: for a path-based attachment, the base directory under which a relative path is
  joined and the base directory that gates the read are one and the same value \<open>b\<close>, the
  variable \<open>ATTACHMENTS_BASE_DIR\<close> of the environment of the call, or \<open>/shared\<close> when it is not
  set. The data of a resolved item are what the read of the path joined under \<open>b\<close> and gated
  by \<open>b\<close> returns; an error of the resolution is the error of that read, unless the guess
  of the MIME type, which comes before the read, has failed; and when the type is there, the
  resolution is that read.
\<close>

theorem one_base_dir_resolves_and_gates:
  assumes "truthy (att_path att)" and "\<not> truthy (att_content_base64 att)"
  shows "\<exists>b. b = (case environ w ''ATTACHMENTS_BASE_DIR'' of None \<Rightarrow> ''/shared'' | Some v \<Rightarrow> v)
     \<and> resolve_attachment_path w (the (att_path att))
         = (if isabs (the (att_path att)) then the (att_path att) else path_join b (the (att_path att)))
     \<and> (\<forall>r. resolve_attachment w att = Inr r \<longrightarrow>
           snd (safe_read_file w
                  (if isabs (the (att_path att)) then the (att_path att) else path_join b (the (att_path att)))
                  (Some b)) = Inr (snd (snd r)))
     \<and> (\<forall>e. resolve_attachment w att = Inl e \<longrightarrow>
           mime_type_or_guess w att
             (if truthy (att_filename att) then the (att_filename att)
              else basename (if isabs (the (att_path att)) then the (att_path att)
                             else path_join b (the (att_path att)))) = Inl e
           \<or> snd (safe_read_file w
                  (if isabs (the (att_path att)) then the (att_path att) else path_join b (the (att_path att)))
                  (Some b)) = Inl e)
     \<and> (\<forall>mt. mime_type_or_guess w att
             (if truthy (att_filename att) then the (att_filename att)
              else basename (if isabs (the (att_path att)) then the (att_path att)
                             else path_join b (the (att_path att)))) = Inr mt \<longrightarrow>
           resolve_attachment w att =
             (case snd (safe_read_file w
                     (if isabs (the (att_path att)) then the (att_path att)
                      else path_join b (the (att_path att)))
                     (Some b)) of
                Inl e \<Rightarrow> Inl e
              | Inr d \<Rightarrow>
                  Inr (if truthy (att_filename att) then the (att_filename att)
                       else basename (if isabs (the (att_path att)) then the (att_path att)
                                      else path_join b (the (att_path att))),
                       mt, d)))"
proof -
  obtain p where p: "att_path att = Some p" "p \<noteq> []" using assms(1) by (cases "att_path att") auto
  show ?thesis using assms p
    by (auto simp: resolve_attachment_def resolve_attachment_path_def getenv_def Let_def
        split: sum.splits option.splits)
qed

text \<open>Witness for C4: a relative path in the example world, joined under and gated by \<open>/shared\<close>.\<close>

theorem one_base_dir_resolves_and_gates_witness:
  "truthy (att_path \<lparr>att_filename = None, att_mime_type = None, att_content_base64 = None,
      att_path = Some ''a.txt''\<rparr>)
   \<and> resolve_attachment_path example_world ''a.txt'' = path_join ''/shared'' ''a.txt''
   \<and> snd (safe_read_file example_world (path_join ''/shared'' ''a.txt'') (Some ''/shared'')) = Inr ''hello''"
  using one_base_dir_resolves_and_gates[of "\<lparr>att_filename = None, att_mime_type = None,
      att_content_base64 = None, att_path = Some ''a.txt''\<rparr>" example_world]
  by (simp add: example_world_def abspath_def isabs_def startswith_def sep_def path_join_def
      endswith_def suffix_to_prefix normpath_def initial_slashes_def basename_def guess_mime_def mime_type_or_guess_def
      safe_read_file_def resolve_attachment_path_def getenv_def path_allowed_def
      py_int_def count_digits_def file_at_def strip_def is_space_def is_digit_def digit_val_def Let_def)

lemma truthy_drop_empty: "truthy (drop_empty x) = truthy x"
  by (cases x) (auto simp: drop_empty_def)

lemma the_drop_empty: "truthy x \<Longrightarrow> the (drop_empty x) = the x"
  by (cases x) (auto simp: drop_empty_def)

text \<open>
  Claim C10: a field holding the empty string is treated as a missing field. Resolution gives
  the same result on an item and on the item with its empty fields taken out. In particular
  an empty path beside a \<open>content_base64\<close> does not conflict and the Base64 branch is taken;
  an item whose only source field is the empty string fails with MissingSourceError; an empty
  file name on a Base64 attachment fails with MissingFilenameError; the path resolver returns
  the empty path unchanged.
\<close>

theorem empty_string_fields_are_absent:
  "resolve_attachment w att = resolve_attachment w (without_empty_fields att)
   \<and> (att_path att = Some [] \<and> truthy (att_content_base64 att) \<longrightarrow>
        resolve_attachment w att \<noteq> Inl ConflictingSourceError
        \<and> resolve_attachment w att = resolve_attachment w (att\<lparr>att_path := None\<rparr>))
   \<and> ((att_path att = Some [] \<and> att_content_base64 att = None)
        \<or> (att_path att = None \<and> att_content_base64 att = Some []) \<longrightarrow>
        resolve_attachment w att = Inl MissingSourceError)
   \<and> (truthy (att_content_base64 att) \<and> \<not> truthy (att_path att) \<and> att_filename att = Some [] \<longrightarrow>
        resolve_attachment w att = Inl MissingFilenameError)
   \<and> resolve_attachment_path w [] = []"
proof -
  have 1: "resolve_attachment w att = resolve_attachment w (without_empty_fields att)"
    by (auto simp: resolve_attachment_def mime_type_or_guess_def without_empty_fields_def
        truthy_drop_empty the_drop_empty Let_def split: sum.splits option.splits)
  have 2: "att_path att = Some [] \<and> truthy (att_content_base64 att) \<longrightarrow>
        resolve_attachment w att \<noteq> Inl ConflictingSourceError
        \<and> resolve_attachment w att = resolve_attachment w (att\<lparr>att_path := None\<rparr>)"
    by (auto simp: resolve_attachment_def mime_type_or_guess_def guess_mime_def Let_def
        split: option.splits sum.splits guess.splits)
  have 3: "(att_path att = Some [] \<and> att_content_base64 att = None)
        \<or> (att_path att = None \<and> att_content_base64 att = Some []) \<longrightarrow>
        resolve_attachment w att = Inl MissingSourceError"
    by (auto simp: resolve_attachment_def)
  have 4: "truthy (att_content_base64 att) \<and> \<not> truthy (att_path att) \<and> att_filename att = Some [] \<longrightarrow>
        resolve_attachment w att = Inl MissingFilenameError"
    by (auto simp: resolve_attachment_def)
  have 5: "resolve_attachment_path w [] = []"
    by (simp add: resolve_attachment_path_def)
  show ?thesis using 1 2 3 4 5 by blast
qed


lemma b64decode_hello: "b64decode ''aGVsbG8='' = Some ''hello''"
  by code_simp

text \<open>
  Witness for C10: an empty path beside a Base64 payload is decoded; an empty path alone, and
  an empty file name, are the errors of the missing field.
\<close>

theorem empty_string_fields_are_absent_witness:
  "resolve_attachment example_world
     \<lparr>att_filename = Some ''a.txt'', att_mime_type = Some '''', att_content_base64 = Some ''aGVsbG8='',
      att_path = Some ''''\<rparr> = Inr (''a.txt'', ''text/plain'', ''hello'')
   \<and> resolve_attachment example_world
     \<lparr>att_filename = Some ''a.txt'', att_mime_type = None, att_content_base64 = None,
      att_path = Some ''''\<rparr> = Inl MissingSourceError
   \<and> resolve_attachment example_world
     \<lparr>att_filename = Some '''', att_mime_type = None, att_content_base64 = Some ''aGVsbG8='',
      att_path = None\<rparr> = Inl MissingFilenameError"
  using empty_string_fields_are_absent[of example_world "\<lparr>att_filename = Some ''a.txt'',
      att_mime_type = Some '''', att_content_base64 = Some ''aGVsbG8='', att_path = Some ''''\<rparr>"]
    empty_string_fields_are_absent[of example_world "\<lparr>att_filename = Some ''a.txt'',
      att_mime_type = None, att_content_base64 = None, att_path = Some ''''\<rparr>"]
    empty_string_fields_are_absent[of example_world "\<lparr>att_filename = Some '''',
      att_mime_type = None, att_content_base64 = Some ''aGVsbG8='', att_path = None\<rparr>"]
  by (simp add: resolve_attachment_def b64decode_hello guess_mime_def mime_type_or_guess_def
      example_world_def without_empty_fields_def drop_empty_def)


section \<open>Properties of the Base64 functions\<close>


lemma of_char_lt_256: "(of_char c :: nat) < 256"
  by (metis of_char_mod_256 mod_less_divisor zero_less_numeral)

lemma b64_val_char: "n < 64 \<Longrightarrow> b64_val (b64_char n) = Some n"
  by (auto simp: b64_val_def b64_char_def Let_def of_char_of)

lemma b64_val_pad: "b64_val (CHR ''='') = None"
  by (simp add: b64_val_def)

lemma b64_char_not_pad: "n < 64 \<Longrightarrow> b64_char n \<noteq> CHR ''=''"
  using b64_val_char[of n] b64_val_pad by auto

lemma b64_val_lt_64: "b64_val c = Some v \<Longrightarrow> v < 64"
  by (auto simp: b64_val_def Let_def split: if_splits)

lemma b64_val_ascii: "b64_val c = Some v \<Longrightarrow> (of_char c :: nat) < 128"
  by (auto simp: b64_val_def Let_def split: if_splits)


lemma a2b_data_0: "n < 64 \<Longrightarrow> a2b_loop 0 l p (b64_char n # cs) = a2b_loop 1 n 0 cs"
  by (simp add: b64_val_char b64_char_not_pad)

lemma a2b_data_1:
  "n < 64 \<Longrightarrow> a2b_loop (Suc 0) l p (b64_char n # cs)
     = map_option ((#) (char_of (l * 4 + n div 16))) (a2b_loop 2 (n mod 16) 0 cs)"
  by (simp add: b64_val_char b64_char_not_pad)

lemma a2b_data_2:
  "n < 64 \<Longrightarrow> a2b_loop 2 l p (b64_char n # cs)
     = map_option ((#) (char_of (l * 16 + n div 4))) (a2b_loop 3 (n mod 4) 0 cs)"
  by (simp add: b64_val_char b64_char_not_pad)

lemma a2b_data_3:
  "n < 64 \<Longrightarrow> a2b_loop 3 l p (b64_char n # cs)
     = map_option ((#) (char_of (l * 64 + n))) (a2b_loop 0 0 0 cs)"
  by (simp add: b64_val_char b64_char_not_pad)

lemma sextet_bounds:
  fixes x y z :: nat
  assumes "x < 256" "y < 256" "z < 256"
  shows "x div 4 < 64" "(x mod 4) * 16 + y div 16 < 64" "(y mod 16) * 4 + z div 64 < 64"
    "z mod 64 < 64" "(x mod 4) * 16 < 64" "(y mod 16) * 4 < 64"
  using assms by auto

lemma byte_1: fixes x y :: nat shows "y < 256 \<Longrightarrow> x div 4 * 4 + ((x mod 4) * 16 + y div 16) div 16 = x"
  by auto

lemma byte_1': fixes x :: nat shows "x div 4 * 4 + ((x mod 4) * 16) div 16 = x"
  by auto

lemma byte_2: fixes x y z :: nat
  assumes "y < 256" "z < 256"
  shows "((x mod 4) * 16 + y div 16) mod 16 * 16 + ((y mod 16) * 4 + z div 64) div 4 = y"
proof -
  have a: "((x mod 4) * 16 + y div 16) mod 16 = y div 16" using assms(1) by simp
  have b: "((y mod 16) * 4 + z div 64) div 4 = y mod 16" using assms(2) by simp
  show ?thesis unfolding a b by simp
qed

lemma byte_2': fixes x y :: nat
  assumes "y < 256"
  shows "((x mod 4) * 16 + y div 16) mod 16 * 16 + ((y mod 16) * 4) div 4 = y"
proof -
  have a: "((x mod 4) * 16 + y div 16) mod 16 = y div 16" using assms(1) by simp
  show ?thesis unfolding a by simp
qed

lemma byte_3: fixes y z :: nat
  assumes "z < 256"
  shows "((y mod 16) * 4 + z div 64) mod 4 * 64 + z mod 64 = z"
proof -
  have a: "((y mod 16) * 4 + z div 64) mod 4 = z div 64" using assms by simp
  show ?thesis unfolding a by simp
qed

lemma a2b_q0: "a2b_loop 0 l p s = a2b_loop 0 0 0 s"
  by (induction s arbitrary: l p) (auto split: option.splits)

lemma a2b_encode_append:
  "length bs mod 3 = 0 \<Longrightarrow>
     a2b_loop 0 l p (b64encode bs @ sfx) = map_option ((@) bs) (a2b_loop 0 0 0 sfx)"
proof (induction bs arbitrary: l p rule: b64encode.induct)
  case 1
  then show ?case using a2b_q0[of l p sfx] by (simp add: option.map_ident)
next
  case (2 a)
  then show ?case by simp
next
  case (3 a b)
  then show ?case by simp
next
  case (4 a b c rest)
  let ?x = "of_char a :: nat" and ?y = "of_char b :: nat" and ?z = "of_char c :: nat"
  have bx: "?x < 256" "?y < 256" "?z < 256" by (rule of_char_lt_256)+
  have len: "length rest mod 3 = 0" using 4(2) by simp
  have ih: "a2b_loop 0 0 0 (b64encode rest @ sfx) = map_option ((@) rest) (a2b_loop 0 0 0 sfx)"
    using 4(1)[OF refl refl refl len] by simp
  have s1: "?x div 4 < 64" and s2: "(?x mod 4) * 16 + ?y div 16 < 64"
    and s3: "(?y mod 16) * 4 + ?z div 64 < 64" and s4: "?z mod 64 < 64"
    using sextet_bounds[OF bx] by blast+
  have b1: "char_of (?x div 4 * 4 + ((?x mod 4) * 16 + ?y div 16) div 16) = a"
    using byte_1[OF bx(2), of ?x] by simp
  have b2: "char_of (((?x mod 4) * 16 + ?y div 16) mod 16 * 16 + ((?y mod 16) * 4 + ?z div 64) div 4) = b"
    using byte_2[OF bx(2) bx(3), of ?x] by simp
  have b3: "char_of (((?y mod 16) * 4 + ?z div 64) mod 4 * 64 + ?z mod 64) = c"
    using byte_3[OF bx(3), of ?y] by simp
  have e: "(\<lambda>x. a # b # c # rest @ x) = (@) (a # b # c # rest)" by auto
  have "a2b_loop 0 l p (b64encode (a # b # c # rest) @ sfx)
      = a2b_loop 0 l p (b64_char (?x div 4) # b64_char ((?x mod 4) * 16 + ?y div 16)
          # b64_char ((?y mod 16) * 4 + ?z div 64) # b64_char (?z mod 64) # (b64encode rest @ sfx))"
    by (simp add: Let_def del: a2b_loop.simps)
  also have "\<dots> = map_option ((@) (a # b # c # rest)) (a2b_loop 0 0 0 sfx)"
    using a2b_data_0[OF s1] a2b_data_1[OF s2] a2b_data_2[OF s3] a2b_data_3[OF s4] ih b1 b2 b3
    by (simp add: option.map_comp comp_def e[symmetric] del: a2b_loop.simps)
  finally show ?case .
qed


lemma a2b_pad_2: "a2b_loop 2 l 0 ''=='' = Some []"
  by simp

lemma a2b_pad_3: "a2b_loop 3 l 0 ''='' = Some []"
  by simp

lemma a2b_encode_tail: "length bs < 3 \<Longrightarrow> a2b_loop 0 l p (b64encode bs) = Some bs"
proof (cases bs rule: b64encode.cases)
  case 1
  then show ?thesis by simp
next
  case (2 a)
  let ?x = "of_char a :: nat"
  have bx: "?x < 256" by (rule of_char_lt_256)
  show ?thesis using 2 sextet_bounds[OF bx bx bx] byte_1'[of ?x]
    by (simp add: Let_def a2b_data_0 a2b_data_1 a2b_pad_2 del: a2b_loop.simps)
next
  case (3 a b)
  let ?x = "of_char a :: nat" and ?y = "of_char b :: nat"
  have bx: "?x < 256" "?y < 256" by (rule of_char_lt_256)+
  show ?thesis using 3 sextet_bounds[OF bx bx(1)] byte_1[OF bx(2), of ?x] byte_2'[OF bx(2), of ?x]
    by (simp add: Let_def a2b_data_0 a2b_data_1 a2b_data_2 a2b_pad_3 del: a2b_loop.simps)
next
  case (4 a b c rest)
  assume "length bs < 3"
  then show ?thesis using 4 by simp
qed

lemma b64encode_append:
  "length xs mod 3 = 0 \<Longrightarrow> b64encode (xs @ ys) = b64encode xs @ b64encode ys"
  by (induction xs rule: b64encode.induct) (auto simp: Let_def)

lemma a2b_encode: "a2b_loop 0 l p (b64encode bs) = Some bs"
proof -
  let ?n = "length bs - length bs mod 3"
  have n: "?n mod 3 = 0" by (simp add: mod_simps)
  have split: "bs = take ?n bs @ drop ?n bs" by simp
  have l1: "length (take ?n bs) mod 3 = 0" using n by simp
  have l2: "length (drop ?n bs) < 3" by simp
  have "b64encode bs = b64encode (take ?n bs) @ b64encode (drop ?n bs)"
    using b64encode_append[OF l1, of "drop ?n bs"] by simp
  then have "a2b_loop 0 l p (b64encode bs) = map_option ((@) (take ?n bs)) (a2b_loop 0 0 0 (b64encode (drop ?n bs)))"
    using a2b_encode_append[OF l1] by simp
  then show ?thesis using a2b_encode_tail[OF l2] by simp
qed

lemma b64encode_chars: "c \<in> set (b64encode bs) \<Longrightarrow> c = CHR ''='' \<or> (\<exists>v. b64_val c = Some v)"
proof (induction bs rule: b64encode.induct)
  case 1 then show ?case by simp
next
  case (2 a)
  have bx: "(of_char a :: nat) < 256" by (rule of_char_lt_256)
  show ?case using 2 sextet_bounds[OF bx bx bx] by (auto simp: Let_def b64_val_char)
next
  case (3 a b)
  have bx: "(of_char a :: nat) < 256" "(of_char b :: nat) < 256" by (rule of_char_lt_256)+
  show ?case using 3 sextet_bounds[OF bx bx(1)] by (auto simp: Let_def b64_val_char)
next
  case (4 a b c rest)
  have bx: "(of_char a :: nat) < 256" "(of_char b :: nat) < 256" "(of_char c :: nat) < 256" by (rule of_char_lt_256)+
  show ?case using 4 sextet_bounds[OF bx] by (auto simp: Let_def b64_val_char)
qed

lemma b64encode_ascii: "is_ascii (b64encode bs)"
  unfolding is_ascii_def
proof
  fix c assume "c \<in> set (b64encode bs)"
  then have "c = CHR ''='' \<or> (\<exists>v. b64_val c = Some v)" by (rule b64encode_chars)
  then show "(of_char c :: nat) < 128" using b64_val_ascii by auto
qed

lemma b64decode_b64encode: "b64decode (b64encode bs) = Some bs"
  by (simp add: b64decode_def b64encode_ascii a2b_base64_def a2b_encode)




section \<open>Decoding the inline payload\<close>


lemma a2b_filter:
  "a2b_loop q l p (filter (\<lambda>c. c = CHR ''='' \<or> b64_val c \<noteq> None) s) = a2b_loop q l p s"
  by (induction s arbitrary: q l p) (auto split: option.splits)

lemma a2b_fail_count:
  "q < 4 \<Longrightarrow> a2b_loop q l p s = None \<Longrightarrow> (q + length (data_chars s)) mod 4 \<noteq> 0"
proof (induction s arbitrary: q l p)
  case Nil
  then show ?case by (simp add: data_chars_def split: if_splits)
next
  case (Cons c s)
  show ?case
  proof (cases "c = CHR ''=''")
    case True
    then have "a2b_loop q l (if q \<ge> 2 then p + 1 else p) s = None"
      using Cons.prems(2) by (simp split: if_splits)
    then show ?thesis using Cons.IH[OF Cons.prems(1)] True by (simp add: data_chars_def b64_val_pad)
  next
    case False
    show ?thesis
    proof (cases "b64_val c")
      case None
      then have "a2b_loop q l p s = None" using Cons.prems(2) False by simp
      then show ?thesis using Cons.IH[OF Cons.prems(1)] None by (simp add: data_chars_def)
    next
      case (Some v)
      consider "q = 0" | "q = 1" | "q = 2" | "q = 3" using Cons.prems(1) by linarith
      then show ?thesis
      proof cases
        case 1
        then have "a2b_loop 1 v 0 s = None" using Cons.prems(2) False Some by simp
        then show ?thesis using Cons.IH[of 1 v 0] 1 Some by (simp add: data_chars_def)
      next
        case 2
        then have "a2b_loop 2 (v mod 16) 0 s = None" using Cons.prems(2) False Some by simp
        then show ?thesis using Cons.IH[of 2 "v mod 16" 0] 2 Some by (simp add: data_chars_def)
      next
        case 3
        then have "a2b_loop 3 (v mod 4) 0 s = None" using Cons.prems(2) False Some by simp
        then show ?thesis using Cons.IH[of 3 "v mod 4" 0] 3 Some by (simp add: data_chars_def)
      next
        case 4
        then have "a2b_loop 0 0 0 s = None" using Cons.prems(2) False Some by simp
        then show ?thesis using Cons.IH[of 0 0 0] 4 Some by (simp add: data_chars_def)
      qed
    qed
  qed
qed

lemma a2b_nopad_count:
  "q < 4 \<Longrightarrow> CHR ''='' \<notin> set s \<Longrightarrow> (q + length (data_chars s)) mod 4 \<noteq> 0 \<Longrightarrow> a2b_loop q l p s = None"
proof (induction s arbitrary: q l p)
  case Nil
  then show ?case by (simp add: data_chars_def)
next
  case (Cons c s)
  have ne: "c \<noteq> CHR ''=''" and np: "CHR ''='' \<notin> set s" using Cons.prems(2) by auto
  show ?case
  proof (cases "b64_val c")
    case None
    then show ?thesis using Cons.IH[OF Cons.prems(1) np, of l p] Cons.prems(3) ne
      by (simp add: data_chars_def)
  next
    case (Some v)
    consider "q = 0" | "q = 1" | "q = 2" | "q = 3" using Cons.prems(1) by linarith
    then show ?thesis
    proof cases
      case 1
      then show ?thesis using Cons.IH[of 1, OF _ np, of v 0] Cons.prems(3) ne Some
        by (simp add: data_chars_def)
    next
      case 2
      then show ?thesis using Cons.IH[of 2, OF _ np, of "v mod 16" 0] Cons.prems(3) ne Some
        by (simp add: data_chars_def)
    next
      case 3
      then show ?thesis using Cons.IH[of 3, OF _ np, of "v mod 4" 0] Cons.prems(3) ne Some
        by (simp add: data_chars_def)
    next
      case 4
      then show ?thesis using Cons.IH[of 0, OF _ np, of 0 0] Cons.prems(3) ne Some
        by (simp add: data_chars_def)
    qed
  qed
qed

lemma mime_type_or_guess_error: "mime_type_or_guess w att fname = Inl e \<Longrightarrow> e = MimeGuessError"
  by (auto simp: mime_type_or_guess_def guess_mime_def split: if_splits guess.splits)

lemma resolve_base64_branch:
  assumes "truthy (att_content_base64 att)" "\<not> truthy (att_path att)" "truthy (att_filename att)"
  shows "resolve_attachment w att =
     (case mime_type_or_guess w att (the (att_filename att)) of
        Inl e \<Rightarrow> Inl e
      | Inr mt \<Rightarrow>
          (case b64decode (the (att_content_base64 att)) of
             None \<Rightarrow> Inl InvalidBase64Error
           | Some data \<Rightarrow> Inr (the (att_filename att), mt, data)))"
  using assms by (simp add: resolve_attachment_def Let_def)

text \<open>
  Claim C5 as stated, "fails with InvalidBase64Error for every malformed input string", fails:
  the payload of four exclamation marks has no Base64 character at all and decodes to the empty
  byte string, and a payload with an asterisk in its middle decodes as if the asterisk were
  not there.
\<close>

theorem malformed_base64_accepted_counterexample:
  "resolve_attachment example_world
     \<lparr>att_filename = Some ''a.txt'', att_mime_type = None, att_content_base64 = Some ''!!!!'',
      att_path = None\<rparr> = Inr (''a.txt'', ''text/plain'', [])
   \<and> resolve_attachment example_world
     \<lparr>att_filename = Some ''a.txt'', att_mime_type = None, att_content_base64 = Some ''aGVs*bG8='',
      att_path = None\<rparr> = Inr (''a.txt'', ''text/plain'', ''hello'')"
proof -
  have 1: "b64decode ''!!!!'' = Some []" by code_simp
  have 2: "b64decode ''aGVs*bG8='' = Some ''hello''" by code_simp
  show ?thesis
    by (simp add: resolve_attachment_def 1 2 guess_mime_def mime_type_or_guess_def example_world_def)
qed

text \<open>
  Claim C5, amended: on the Base64 branch (\<open>content_base64\<close> present, path absent, file name
  present) the MIME type comes first: it is the one given, or the one guessed from the file
  name, and an error of the guess is the result of the resolution. With the type there, the
  payload is decoded leniently, as \<open>base64.b64decode\<close> does by default. A payload that is the
  standard Base64 encoding of some bytes resolves to these bytes. Characters that are neither
  in the alphabet nor the padding are discarded: an ASCII payload decodes as the payload
  without them. The failure InvalidBase64Error is raised for every payload with a non-ASCII
  character; otherwise it is raised only when the number of alphabet characters is not a
  multiple of four, and for a payload without padding characters exactly then.
\<close>

theorem base64_decoded_leniently:
  assumes "truthy (att_content_base64 att)" and "\<not> truthy (att_path att)"
    and "truthy (att_filename att)" and "att_content_base64 att = Some s"
  shows "resolve_attachment w att =
           (case mime_type_or_guess w att (the (att_filename att)) of
              Inl e \<Rightarrow> Inl e
            | Inr mt \<Rightarrow>
                (case b64decode s of
                   None \<Rightarrow> Inl InvalidBase64Error
                 | Some data \<Rightarrow> Inr (the (att_filename att), mt, data)))
     \<and> (\<forall>mt bs. mime_type_or_guess w att (the (att_filename att)) = Inr mt \<and> s = b64encode bs \<longrightarrow>
          resolve_attachment w att = Inr (the (att_filename att), mt, bs))
     \<and> (is_ascii s \<longrightarrow>
          b64decode s = b64decode (filter (\<lambda>c. c = CHR ''='' \<or> b64_val c \<noteq> None) s))
     \<and> (\<forall>mt. mime_type_or_guess w att (the (att_filename att)) = Inr mt \<and> \<not> is_ascii s \<longrightarrow>
          resolve_attachment w att = Inl InvalidBase64Error)
     \<and> (resolve_attachment w att = Inl InvalidBase64Error \<longrightarrow>
          \<not> is_ascii s \<or> length (data_chars s) mod 4 \<noteq> 0)
     \<and> (\<forall>mt. mime_type_or_guess w att (the (att_filename att)) = Inr mt
            \<and> is_ascii s \<and> CHR ''='' \<notin> set s \<longrightarrow>
          (resolve_attachment w att = Inl InvalidBase64Error \<longleftrightarrow> length (data_chars s) mod 4 \<noteq> 0))
     \<and> (\<forall>e. mime_type_or_guess w att (the (att_filename att)) = Inl e \<longrightarrow>
          e = MimeGuessError \<and> resolve_attachment w att = Inl e)"
proof -
  let ?t = "mime_type_or_guess w att (the (att_filename att))"
  have r: "resolve_attachment w att =
           (case ?t of
              Inl e \<Rightarrow> Inl e
            | Inr mt \<Rightarrow>
                (case b64decode s of
                   None \<Rightarrow> Inl InvalidBase64Error
                 | Some data \<Rightarrow> Inr (the (att_filename att), mt, data)))"
    using resolve_base64_branch[OF assms(1-3), of w] assms(4) by (simp split: sum.splits)
  have e: "resolve_attachment w att = Inl InvalidBase64Error \<longleftrightarrow> b64decode s = None"
    if "?t = Inr mt" for mt
    unfolding r that by (simp split: option.splits)
  have f: "is_ascii s \<Longrightarrow> is_ascii (filter (\<lambda>c. c = CHR ''='' \<or> b64_val c \<noteq> None) s)"
    by (simp add: is_ascii_def)
  have 2: "\<forall>mt bs. ?t = Inr mt \<and> s = b64encode bs \<longrightarrow>
          resolve_attachment w att = Inr (the (att_filename att), mt, bs)"
    unfolding r by (auto simp: b64decode_b64encode)
  have 3: "is_ascii s \<longrightarrow>
          b64decode s = b64decode (filter (\<lambda>c. c = CHR ''='' \<or> b64_val c \<noteq> None) s)"
    using f a2b_filter[of 0 0 0 s] by (simp add: b64decode_def a2b_base64_def)
  have 4: "\<forall>mt. ?t = Inr mt \<and> \<not> is_ascii s \<longrightarrow> resolve_attachment w att = Inl InvalidBase64Error"
    using e by (auto simp: b64decode_def)
  have 5: "resolve_attachment w att = Inl InvalidBase64Error \<longrightarrow>
          \<not> is_ascii s \<or> length (data_chars s) mod 4 \<noteq> 0"
  proof
    assume a: "resolve_attachment w att = Inl InvalidBase64Error"
    have "\<exists>mt. ?t = Inr mt"
    proof (cases ?t)
      case (Inl x)
      then have "x = MimeGuessError" by (rule mime_type_or_guess_error)
      then show ?thesis using a r Inl by simp
    next
      case (Inr mt)
      then show ?thesis by blast
    qed
    then have "b64decode s = None" using e a by blast
    then show "\<not> is_ascii s \<or> length (data_chars s) mod 4 \<noteq> 0"
      using a2b_fail_count[of 0 0 0 s]
      by (auto simp: b64decode_def a2b_base64_def split: if_splits)
  qed
  have 6: "\<forall>mt. ?t = Inr mt \<and> is_ascii s \<and> CHR ''='' \<notin> set s \<longrightarrow>
          (resolve_attachment w att = Inl InvalidBase64Error \<longleftrightarrow> length (data_chars s) mod 4 \<noteq> 0)"
    using e a2b_fail_count[of 0 0 0 s] a2b_nopad_count[of 0 s 0 0]
    by (auto simp: b64decode_def a2b_base64_def split: if_splits)
  have 7: "\<forall>e. ?t = Inl e \<longrightarrow> e = MimeGuessError \<and> resolve_attachment w att = Inl e"
    unfolding r using mime_type_or_guess_error[of w att "the (att_filename att)"] by auto
  show ?thesis using r 2 3 4 5 6 7 by blast
qed

text \<open>
  Witness for C5: the payload \<open>aGVsbG8\<close>, with its padding missing, has seven alphabet
  characters and is refused; the padded payload is the encoding of \<open>hello\<close>; and for the
  file name \<open>//[x\<close>, for which the guess of the type fails, that failure is the result.
\<close>

theorem base64_decoded_leniently_witness:
  "truthy (Some ''aGVsbG8'') \<and> is_ascii ''aGVsbG8'' \<and> CHR ''='' \<notin> set ''aGVsbG8''
   \<and> length (data_chars ''aGVsbG8'') mod 4 \<noteq> 0
   \<and> resolve_attachment example_world
     \<lparr>att_filename = Some ''a.txt'', att_mime_type = None, att_content_base64 = Some ''aGVsbG8'',
      att_path = None\<rparr> = Inl InvalidBase64Error
   \<and> ''aGVsbG8='' = b64encode ''hello''
   \<and> resolve_attachment example_world
     \<lparr>att_filename = Some ''a.txt'', att_mime_type = None, att_content_base64 = Some ''aGVsbG8='',
      att_path = None\<rparr> = Inr (''a.txt'', ''text/plain'', ''hello'')
   \<and> resolve_attachment example_world
     \<lparr>att_filename = Some ''//[x'', att_mime_type = None, att_content_base64 = Some ''aGVsbG8='',
      att_path = None\<rparr> = Inl MimeGuessError"
proof -
  let ?bad = "\<lparr>att_filename = Some ''a.txt'', att_mime_type = None,
        att_content_base64 = Some ''aGVsbG8'', att_path = None\<rparr>"
  let ?good = "\<lparr>att_filename = Some ''a.txt'', att_mime_type = None,
        att_content_base64 = Some ''aGVsbG8='', att_path = None\<rparr>"
  let ?odd = "\<lparr>att_filename = Some ''//[x'', att_mime_type = None,
        att_content_base64 = Some ''aGVsbG8='', att_path = None\<rparr>"
  let ?v = "example_world"
  have a: "is_ascii ''aGVsbG8''" by (simp add: is_ascii_def)
  have n: "CHR ''='' \<notin> set ''aGVsbG8''" by simp
  have d: "length (data_chars ''aGVsbG8'') mod 4 \<noteq> 0" by (simp add: data_chars_def b64_val_def)
  have h: "''aGVsbG8='' = b64encode ''hello''" by code_simp
  have gb: "mime_type_or_guess example_world ?bad (the (att_filename ?bad)) = Inr ''text/plain''"
    and gg: "mime_type_or_guess example_world ?good (the (att_filename ?good)) = Inr ''text/plain''"
    and go: "mime_type_or_guess ?v ?odd (the (att_filename ?odd)) = Inl MimeGuessError"
    by (simp_all add: mime_type_or_guess_def guess_mime_def example_world_def)
  have pb: "truthy (att_content_base64 ?bad)" "\<not> truthy (att_path ?bad)"
    "truthy (att_filename ?bad)" "att_content_base64 ?bad = Some ''aGVsbG8''" by simp_all
  have pg: "truthy (att_content_base64 ?good)" "\<not> truthy (att_path ?good)"
    "truthy (att_filename ?good)" "att_content_base64 ?good = Some ''aGVsbG8=''" by simp_all
  have po: "truthy (att_content_base64 ?odd)" "\<not> truthy (att_path ?odd)"
    "truthy (att_filename ?odd)" "att_content_base64 ?odd = Some ''aGVsbG8=''" by simp_all
  note B = base64_decoded_leniently[OF pb, of example_world]
  note G = base64_decoded_leniently[OF pg, of example_world]
  note O = base64_decoded_leniently[OF po, of ?v]
  have bad: "resolve_attachment example_world ?bad = Inl InvalidBase64Error"
    using B[THEN conjunct2, THEN conjunct2, THEN conjunct2, THEN conjunct2, THEN conjunct2,
        THEN conjunct1] gb a n d
    by blast
  have "resolve_attachment example_world ?good
      = Inr (the (att_filename ?good), ''text/plain'', ''hello'')"
    using G[THEN conjunct2, THEN conjunct1] gg h by blast
  then have r: "resolve_attachment example_world ?good = Inr (''a.txt'', ''text/plain'', ''hello'')"
    by simp
  have o: "resolve_attachment ?v ?odd = Inl MimeGuessError"
    using O[THEN conjunct2, THEN conjunct2, THEN conjunct2, THEN conjunct2, THEN conjunct2,
        THEN conjunct2] go
    by blast
  have t: "truthy (Some ''aGVsbG8'')" by simp
  show ?thesis using t a n d bad h r o by blast
qed

section \<open>The serializer always returns\<close>

lemma digit_char_value: "d < 10 \<Longrightarrow> (of_char (char_of (48 + d :: nat)) :: nat) - 48 = d"
  by (simp add: of_char_of)

lemma str_of_nat_value:
  "foldl (\<lambda>a c. a * 10 + ((of_char c :: nat) - 48)) 0 (str_of_nat n) = n"
proof (induction n rule: str_of_nat.induct)
  case (1 n)
  show ?case
  proof (cases "n < 10")
    case True
    then show ?thesis using digit_char_value[of n] by (subst str_of_nat.simps) simp
  next
    case False
    have "n mod 10 < 10" by simp
    then show ?thesis using False 1 digit_char_value[of "n mod 10"]
      by (subst str_of_nat.simps) simp
  qed
qed

lemma str_of_nat_inj: "str_of_nat a = str_of_nat b \<Longrightarrow> a = b"
  by (metis str_of_nat_value)

lemma finite_colliding:
  "finite {k. collides ls (bd @ ''.'' @ str_of_nat k)}"
proof -
  let ?f = "\<lambda>k. ''--'' @ bd @ ''.'' @ str_of_nat k"
  let ?g = "\<lambda>k. ''--'' @ bd @ ''.'' @ str_of_nat k @ ''--''"
  have i1: "inj ?f" by (auto simp: inj_def dest: str_of_nat_inj)
  have i2: "inj ?g" by (auto simp: inj_def dest: str_of_nat_inj)
  have f1: "finite {k. ?f k \<in> set ls}"
    using finite_vimageI[OF finite_set i1, of ls] by (simp add: vimage_def)
  have f2: "finite {k. ?g k \<in> set ls}"
    using finite_vimageI[OF finite_set i2, of ls] by (simp add: vimage_def)
  have "{k. collides ls (bd @ ''.'' @ str_of_nat k)} = {k. ?f k \<in> set ls} \<union> {k. ?g k \<in> set ls}"
    by (auto simp: collides_def)
  then show ?thesis using f1 f2 by simp
qed

lemma boundary_loop_candidates:
  "\<exists>r. boundary_loop ls bd (bd @ ''.'' @ str_of_nat c) (Suc c) = Some r"
proof (induction "card {k. collides ls (bd @ ''.'' @ str_of_nat k) \<and> c \<le> k}" arbitrary: c rule: less_induct)
  case less
  show ?case
  proof (cases "collides ls (bd @ ''.'' @ str_of_nat c)")
    case False
    then show ?thesis by (subst boundary_loop.simps) simp
  next
    case True
    let ?S = "\<lambda>c. {k. collides ls (bd @ ''.'' @ str_of_nat k) \<and> c \<le> k}"
    have fin: "finite (?S c)" using finite_colliding[of ls bd] by simp
    have "c \<in> ?S c" "c \<notin> ?S (Suc c)" "?S (Suc c) \<subseteq> ?S c" using True by auto
    then have "?S (Suc c) \<subset> ?S c" by blast
    then have "card (?S (Suc c)) < card (?S c)" using fin by (rule psubset_card_mono[rotated])
    then obtain r where "boundary_loop ls bd (bd @ ''.'' @ str_of_nat (Suc c)) (Suc (Suc c)) = Some r"
      using less by blast
    then show ?thesis using True by (subst boundary_loop.simps) simp
  qed
qed

lemma boundary_loop_returns: "\<exists>r. boundary_loop ls bd b c = Some r"
  using boundary_loop_candidates[of ls bd c] by (subst boundary_loop.simps) simp

lemma as_bytes_returns: "\<exists>r. as_bytes w token msg = Some r"
proof -
  obtain b where "make_boundary token (str_join NL (map part_text (msg_parts msg))) = Some b"
    unfolding make_boundary_def using boundary_loop_returns by blast
  then show ?thesis by (simp add: as_bytes_def)
qed


lemma build_raw_email_returns: "\<exists>r. build_raw_email w token req = Some r"
proof (cases "build_message w req")
  case (Inl e)
  then show ?thesis by (simp add: build_raw_email_def)
next
  case (Inr m)
  obtain r where "as_bytes w token m = Some r" using as_bytes_returns by blast
  then show ?thesis using Inr by (cases r) (simp_all add: build_raw_email_def)
qed


section \<open>Parsing a serialized message\<close>















section \<open>Serializable messages\<close>




























section \<open>The message that a request builds\<close>










section \<open>The inline attachment, from the request to the parsed message\<close>










end
